theory Spec2Isabelle
  imports Main
begin

section \<open>Data model of \<open>lambda.py\<close>\<close>

text \<open>
  The module manages one Let's Encrypt certificate in ACM, with its private key in an SSM
  parameter. A Python string is modelled as a \<open>string\<close>: the list of its characters, a
  character outside ASCII standing as its UTF-8 bytes (equality, \<open>in\<close>, \<open>split('/')\<close> and
  concatenation give the same answers on the bytes as on the characters). Python
  integers are modelled as \<open>int\<close>.
  Every exception the module can meet is a value of \<open>error\<close>; a function that may raise
  returns \<open>error + 'a\<close> with \<open>Inl\<close> for the exception. Logging (\<open>log\<close>, a \<open>print\<close>) has
  no effect on the stores and is left out, and so are the arguments \<open>event\<close> and \<open>context\<close>
  of \<open>lambda_handler\<close>, which it does not read.
\<close>

text \<open>Errors of the SSM client: \<open>ssm.exceptions.ParameterNotFound\<close>, and any other one.\<close>

datatype ssm_error = ParameterNotFound | SsmFailure string

text \<open>Errors of the ACM client.\<close>

datatype acm_error = AcmFailure string

datatype error =
    Ssm ssm_error
  | Acm acm_error
  | NameError string
  | KeyError string
  | IndexError
  | ValueError string
  | OSError string
  | CertbotError string

text \<open>A \<open>datetime.datetime\<close>, by its calendar and clock fields, and a \<open>datetime.date\<close>.\<close>

record datetime =
  year :: int
  month :: int
  day :: int
  hour :: int
  minute :: int
  second :: int
  microsecond :: int

record date =
  d_year :: int
  d_month :: int
  d_day :: int

text \<open>An entry of \<open>CertificateSummaryList\<close> (the keys the module reads).\<close>

record cert_summary =
  s_DomainName :: string
  s_CertificateArn :: string

text \<open>
  The \<open>Certificate\<close> member of a \<open>describe_certificate\<close> response (the keys the module
  reads). \<open>ImportedAt\<close> is read with \<open>.get\<close>, so it may be absent; an instant is modelled
  by its position on the time line (an \<open>int\<close>), the only thing the module uses of it is
  the order.
\<close>

record cert_info =
  i_CertificateArn :: string
  i_ImportedAt :: "int option"
  i_SubjectAlternativeNames :: "string list"
  i_Issuer :: string
  i_NotAfter :: datetime

text \<open>
  The \<open>get_certificate\<close> response. ACM leaves the key \<open>CertificateChain\<close> out for a
  certificate that was imported without a chain.
\<close>

record cert_body =
  b_Certificate :: string
  b_CertificateChain :: "string option"

text \<open>The dictionary \<open>cert_data\<close> that \<open>provision_cert\<close> builds and \<open>import_cert\<close> reads.\<close>

record cert_data =
  cd_Certificate :: string
  cd_CertificateChain :: string
  cd_PrivateKey :: string

text \<open>The named tuple \<open>Certificate\<close>.\<close>

record Certificate =
  Certificate :: string
  CertificateArn :: string
  CertificateChain :: string
  NotAfter :: datetime
  PrivateKey :: string

text \<open>The dictionary \<open>lambda_handler\<close> returns: four keys, no expiry.\<close>

record response =
  r_Certificate :: string
  r_CertificateArn :: string
  r_CertificateChain :: string
  r_PrivateKey :: string

text \<open>The module-level configuration (lines 10 to 14), read from the environment.\<close>

record config =
  DOMAINS :: "string list"
  SUBJECT :: string
  EMAIL_ADDRESS :: string
  FUNCTION_NAME :: string
  STAGING :: bool

text \<open>
  The assignments of lines 10 to 14, from the decoded value of \<open>DOMAINS\<close> and the three
  other environment variables. \<open>DOMAINS[0]\<close> raises \<open>IndexError\<close> on an empty list, and
  then the module does not load.
\<close>

definition module_config :: "string list \<Rightarrow> string \<Rightarrow> string \<Rightarrow> string \<Rightarrow> error + config" where
  "module_config domains email_address function_name staging =
     (case domains of
        [] \<Rightarrow> Inl IndexError
      | subject # others \<Rightarrow>
          Inr \<lparr>DOMAINS = domains, SUBJECT = subject, EMAIL_ADDRESS = email_address,
               FUNCTION_NAME = function_name, STAGING = (staging = ''1'')\<rparr>)"

text \<open>
  The world outside the module. The inventory store (ACM) and the secret store (SSM) are
  given by what their read operations answer; \<open>acm_pages\<close> is what the paginator of
  \<open>list_certificates(CertificateStatuses=['ISSUED'])\<close> yields, page by page, a page that
  cannot be fetched being an error. The remaining fields say what the environment would
  answer to an operation the module performs once: the identifier and metadata ACM would
  assign to an import, whether \<open>put_parameter\<close> would fail, the temporary directory, and
  the files the ACME client would leave. \<open>str_lower\<close> is what the interpreter answers to
  \<open>str.lower()\<close>: its Unicode case tables are not part of the module, so the lowering is
  taken as given, and what is proved holds whatever it is.
\<close>

record world =
  acm_pages :: "(acm_error + cert_summary list) list"
  acm_describe :: "string \<Rightarrow> acm_error + cert_info"
  acm_get :: "string \<Rightarrow> acm_error + cert_body"
  ssm_get :: "string \<Rightarrow> ssm_error + string"
  today :: date
  acm_import_answer :: "cert_data \<Rightarrow> acm_error + cert_summary \<times> cert_info"
  ssm_put_fault :: "string \<Rightarrow> ssm_error option"
  temp_dir_answer :: "error + string"
  certbot_answer :: "string list \<Rightarrow> error + (string \<Rightarrow> string option)"
  str_lower :: "string \<Rightarrow> string"

section \<open>String helpers\<close>

text \<open>\<open>p in s\<close> for strings: \<open>p\<close> occurs in \<open>s\<close> as a contiguous block.\<close>

fun starts_with :: "string \<Rightarrow> string \<Rightarrow> bool" where
  "starts_with [] s = True"
| "starts_with (p # ps) [] = False"
| "starts_with (p # ps) (c # cs) = (p = c \<and> starts_with ps cs)"

fun str_in :: "string \<Rightarrow> string \<Rightarrow> bool" where
  "str_in p [] = (p = [])"
| "str_in p (c # cs) = (starts_with p (c # cs) \<or> str_in p cs)"

text \<open>\<open>s.split('/')[-1]\<close>: what follows the last slash, the whole string when there is none.\<close>

definition last_segment :: "string \<Rightarrow> string" where
  "last_segment s = rev (takeWhile (\<lambda>c. c \<noteq> CHR ''/'') (rev s))"

section \<open>The Certificate Locator\<close>

definition get_ssm_param_name :: "config \<Rightarrow> string \<Rightarrow> string" where
  "get_ssm_param_name cfg cert_arn =
     (let cert_id = last_segment cert_arn
      in ''/'' @ FUNCTION_NAME cfg @ ''/'' @ cert_id @ ''/PrivateKey'')"

text \<open>
  \<open>get_private_key\<close>: \<open>ParameterNotFound\<close> is caught and gives \<open>None\<close>; any other error of
  \<open>get_parameter\<close> is not caught.
\<close>

definition get_private_key :: "config \<Rightarrow> world \<Rightarrow> string \<Rightarrow> error + string option" where
  "get_private_key cfg w cert_arn =
     (let param_name = get_ssm_param_name cfg cert_arn
      in case ssm_get w param_name of
           Inl ParameterNotFound \<Rightarrow> Inr None
         | Inl e \<Rightarrow> Inl (Ssm e)
         | Inr v \<Rightarrow> Inr (Some v))"

text \<open>
  The body of the inner \<open>for\<close> loop of \<open>find_latest_cert\<close>, for one \<open>cert_summary\<close>. The
  loop variables \<open>latest_cert_info\<close> and \<open>latest_private_key\<close> are set together, so they
  are one optional pair. Each \<open>continue\<close> returns the pair as it was.
\<close>

definition examine ::
  "config \<Rightarrow> world \<Rightarrow> (cert_info \<times> string) option \<Rightarrow> cert_summary
     \<Rightarrow> error + (cert_info \<times> string) option" where
  "examine cfg w latest cert_summary =
     (if s_DomainName cert_summary \<noteq> SUBJECT cfg then Inr latest
      else
        let cert_arn = s_CertificateArn cert_summary
        in case acm_describe w cert_arn of
             Inl e \<Rightarrow> Inl (Acm e)
           | Inr cert_info \<Rightarrow>
               (case i_ImportedAt cert_info of
                  None \<Rightarrow> Inr latest
                | Some imported_at \<Rightarrow>
                    (case (case latest of
                             None \<Rightarrow> Inr False
                           | Some (latest_cert_info, latest_private_key) \<Rightarrow>
                               (case i_ImportedAt latest_cert_info of
                                  None \<Rightarrow> Inl (KeyError ''ImportedAt'')
                                | Some latest_at \<Rightarrow> Inr (imported_at \<le> latest_at))) of
                       Inl e \<Rightarrow> Inl e
                     | Inr True \<Rightarrow> Inr latest
                     | Inr False \<Rightarrow>
                         if set (i_SubjectAlternativeNames cert_info) \<noteq> set (DOMAINS cfg)
                         then Inr latest
                         else if str_in ''fake'' (str_lower w (i_Issuer cert_info)) \<noteq> STAGING cfg
                         then Inr latest
                         else
                           (case get_private_key cfg w cert_arn of
                              Inl e \<Rightarrow> Inl e
                            | Inr None \<Rightarrow> Inr latest
                            | Inr (Some private_key) \<Rightarrow>
                                if private_key = [] then Inr latest
                                else Inr (Some (cert_info, private_key))))))"

text \<open>The inner loop over one page, and the outer loop over the pages.\<close>

fun scan_page ::
  "config \<Rightarrow> world \<Rightarrow> (cert_info \<times> string) option \<Rightarrow> cert_summary list
     \<Rightarrow> error + (cert_info \<times> string) option" where
  "scan_page cfg w latest [] = Inr latest"
| "scan_page cfg w latest (cert_summary # rest) =
     (case examine cfg w latest cert_summary of
        Inl e \<Rightarrow> Inl e
      | Inr latest' \<Rightarrow> scan_page cfg w latest' rest)"

fun scan_pages ::
  "config \<Rightarrow> world \<Rightarrow> (cert_info \<times> string) option \<Rightarrow> (acm_error + cert_summary list) list
     \<Rightarrow> error + (cert_info \<times> string) option" where
  "scan_pages cfg w latest [] = Inr latest"
| "scan_pages cfg w latest (Inl e # pages) = Inl (Acm e)"
| "scan_pages cfg w latest (Inr page # pages) =
     (case scan_page cfg w latest page of
        Inl e \<Rightarrow> Inl e
      | Inr latest' \<Rightarrow> scan_pages cfg w latest' pages)"

definition find_latest_cert :: "config \<Rightarrow> world \<Rightarrow> error + Certificate option" where
  "find_latest_cert cfg w =
     (case scan_pages cfg w None (acm_pages w) of
        Inl e \<Rightarrow> Inl e
      | Inr None \<Rightarrow> Inr None
      | Inr (Some (latest_cert_info, latest_private_key)) \<Rightarrow>
          (let cert_arn = i_CertificateArn latest_cert_info
           in case acm_get w cert_arn of
                Inl e \<Rightarrow> Inl (Acm e)
              | Inr cert_data \<Rightarrow>
                  (case b_CertificateChain cert_data of
                     None \<Rightarrow> Inl (KeyError ''CertificateChain'')
                   | Some chain \<Rightarrow>
                       Inr (Some \<lparr>Certificate = b_Certificate cert_data,
                                  CertificateArn = cert_arn,
                                  CertificateChain = chain,
                                  NotAfter = i_NotAfter latest_cert_info,
                                  PrivateKey = latest_private_key\<rparr>))))"

section \<open>Expiry evaluation\<close>

text \<open>
  \<open>datetime.date\<close> as the standard library computes it: the constructor checks its
  fields and raises \<open>ValueError\<close>, and the difference of two dates is the difference of
  their proleptic Gregorian ordinals.
\<close>

definition is_leap :: "int \<Rightarrow> bool" where
  "is_leap y = (y mod 4 = 0 \<and> (y mod 100 \<noteq> 0 \<or> y mod 400 = 0))"

definition days_before_year :: "int \<Rightarrow> int" where
  "days_before_year y = (let p = y - 1 in p * 365 + p div 4 - p div 100 + p div 400)"

definition DAYS_IN_MONTH :: "int list" where
  "DAYS_IN_MONTH = [-1, 31, 28, 31, 30, 31, 30, 31, 31, 30, 31, 30, 31]"

definition DAYS_BEFORE_MONTH :: "int list" where
  "DAYS_BEFORE_MONTH = [-1, 0, 31, 59, 90, 120, 151, 181, 212, 243, 273, 304, 334]"

definition days_in_month :: "int \<Rightarrow> int \<Rightarrow> int" where
  "days_in_month y m = (if m = 2 \<and> is_leap y then 29 else DAYS_IN_MONTH ! nat m)"

definition days_before_month :: "int \<Rightarrow> int \<Rightarrow> int" where
  "days_before_month y m =
     DAYS_BEFORE_MONTH ! nat m + (if m > 2 \<and> is_leap y then 1 else 0)"

definition ymd2ord :: "int \<Rightarrow> int \<Rightarrow> int \<Rightarrow> int" where
  "ymd2ord y m d = days_before_year y + days_before_month y m + d"

definition date_new :: "int \<Rightarrow> int \<Rightarrow> int \<Rightarrow> error + date" where
  "date_new y m d =
     (if \<not> (1 \<le> y \<and> y \<le> 9999) then Inl (ValueError ''year is out of range'')
      else if \<not> (1 \<le> m \<and> m \<le> 12) then Inl (ValueError ''month must be in 1..12'')
      else if \<not> (1 \<le> d \<and> d \<le> days_in_month y m)
      then Inl (ValueError ''day is out of range for month'')
      else Inr \<lparr>d_year = y, d_month = m, d_day = d\<rparr>)"

definition toordinal :: "date \<Rightarrow> int" where
  "toordinal dt = ymd2ord (d_year dt) (d_month dt) (d_day dt)"

text \<open>\<open>(a - b).days\<close>\<close>

definition date_sub_days :: "date \<Rightarrow> date \<Rightarrow> int" where
  "date_sub_days a b = toordinal a - toordinal b"

definition get_days_remaining :: "world \<Rightarrow> Certificate \<Rightarrow> error + int" where
  "get_days_remaining w cert =
     (let today = today w
      in case date_new (year (NotAfter cert)) (month (NotAfter cert)) (day (NotAfter cert)) of
           Inl e \<Rightarrow> Inl e
         | Inr expire_date \<Rightarrow>
             (let days_remaining = date_sub_days expire_date today
              in Inr days_remaining))"

section \<open>The Renewal Executor\<close>

text \<open>
  The names the module binds at its top level: its imports, its assignments and its
  function definitions. A name a function body reads that is not local is looked up
  here; \<open>load_global\<close> is that lookup for a name that is no builtin.
\<close>

definition module_globals :: "string list" where
  "module_globals =
     [''boto3'', ''collections'', ''datetime'', ''json'', ''os'', ''subprocess'', ''tempfile'',
      ''DOMAINS'', ''SUBJECT'', ''EMAIL_ADDRESS'', ''FUNCTION_NAME'', ''STAGING'',
      ''Certificate'', ''acm'', ''ssm'',
      ''find_latest_cert'', ''get_days_remaining'', ''get_private_key'',
      ''get_ssm_param_name'', ''import_cert'', ''log'', ''provision_cert'',
      ''lambda_handler'']"

definition load_global :: "string \<Rightarrow> error + unit" where
  "load_global name = (if name \<in> set module_globals then Inr () else Inl (NameError name))"

text \<open>\<open>os.path.join\<close> (POSIX) and \<open>sep.join\<close>.\<close>

definition path_join2 :: "string \<Rightarrow> string \<Rightarrow> string" where
  "path_join2 path b =
     (if starts_with ''/'' b then b
      else if path = [] \<or> last path = CHR ''/'' then path @ b
      else path @ ''/'' @ b)"

definition path_join :: "string \<Rightarrow> string list \<Rightarrow> string" where
  "path_join a p = foldl path_join2 a p"

fun str_join :: "string \<Rightarrow> string list \<Rightarrow> string" where
  "str_join sep [] = []"
| "str_join sep [x] = x"
| "str_join sep (x # y # ys) = x @ sep @ str_join sep (y # ys)"

text \<open>\<open>open(path).read()\<close> on the files the ACME client left.\<close>

definition read_file :: "(string \<Rightarrow> string option) \<Rightarrow> string \<Rightarrow> error + string" where
  "read_file files path = (case files path of None \<Rightarrow> Inl (OSError path) | Some text \<Rightarrow> Inr text)"

definition provision_cert :: "config \<Rightarrow> world \<Rightarrow> error + cert_data" where
  "provision_cert cfg w =
     (case temp_dir_answer w of
        Inl e \<Rightarrow> Inl e
      | Inr temp_dir \<Rightarrow>
          (let lets_encrypt_dir = path_join temp_dir [''lets-encrypt''];
               config_dir = path_join lets_encrypt_dir [''config''];
               work_dir = path_join lets_encrypt_dir [''work''];
               logs_dir = path_join lets_encrypt_dir [''logs''];
               certbot_args =
                 [''certonly'', ''--noninteractive'', ''--agree-tos'',
                  ''--email'', EMAIL_ADDRESS cfg,
                  ''--dns-route53'',
                  ''--domains'', str_join '','' (DOMAINS cfg),
                  ''--config-dir'', config_dir,
                  ''--work-dir'', work_dir,
                  ''--logs-dir'', logs_dir]
                 @ (if STAGING cfg then [''--staging''] else [])
           in case load_global ''certbot'' of
                Inl e \<Rightarrow> Inl e
              | Inr _ \<Rightarrow>
                  (case certbot_answer w certbot_args of
                     Inl e \<Rightarrow> Inl e
                   | Inr files \<Rightarrow>
                       (case read_file files
                               (path_join config_dir [''live'', SUBJECT cfg, ''cert.pem'']) of
                          Inl e \<Rightarrow> Inl e
                        | Inr cert \<Rightarrow>
                            (case read_file files
                                    (path_join config_dir
                                       [''live'', SUBJECT cfg, ''fullchain.pem'']) of
                               Inl e \<Rightarrow> Inl e
                             | Inr fullchain \<Rightarrow>
                                 (case read_file files
                                         (path_join config_dir
                                            [''live'', SUBJECT cfg, ''privkey.pem'']) of
                                    Inl e \<Rightarrow> Inl e
                                  | Inr privkey \<Rightarrow>
                                      Inr \<lparr>cd_Certificate = cert,
                                           cd_CertificateChain = fullchain,
                                           cd_PrivateKey = privkey\<rparr>))))))"

text \<open>
  The two writes of the module. \<open>import_certificate\<close> registers the certificate under the
  identifier ACM assigns; \<open>put_parameter\<close> with \<open>Overwrite=True\<close> sets the parameter.
\<close>

definition acm_import_certificate :: "world \<Rightarrow> cert_data \<Rightarrow> acm_error + string \<times> world" where
  "acm_import_certificate w cert_data =
     (case acm_import_answer w cert_data of
        Inl e \<Rightarrow> Inl e
      | Inr (summary, info) \<Rightarrow>
          Inr (s_CertificateArn summary,
               w\<lparr>acm_pages := acm_pages w @ [Inr [summary]],
                 acm_describe := (acm_describe w)(s_CertificateArn summary := Inr info),
                 acm_get := (acm_get w)(s_CertificateArn summary :=
                   Inr \<lparr>b_Certificate = cd_Certificate cert_data,
                        b_CertificateChain = Some (cd_CertificateChain cert_data)\<rparr>)\<rparr>))"

definition ssm_put_parameter :: "world \<Rightarrow> string \<Rightarrow> string \<Rightarrow> ssm_error + world" where
  "ssm_put_parameter w name val =
     (case ssm_put_fault w name of
        Some e \<Rightarrow> Inl e
      | None \<Rightarrow> Inr (w\<lparr>ssm_get := (ssm_get w)(name := Inr val)\<rparr>))"

definition import_cert :: "config \<Rightarrow> world \<Rightarrow> cert_data \<Rightarrow> (error + Certificate) \<times> world" where
  "import_cert cfg w cert_data =
     (case acm_import_certificate w cert_data of
        Inl e \<Rightarrow> (Inl (Acm e), w)
      | Inr (cert_arn, w1) \<Rightarrow>
          (let param_name = get_ssm_param_name cfg cert_arn
           in case ssm_put_parameter w1 param_name (cd_PrivateKey cert_data) of
                Inl e \<Rightarrow> (Inl (Ssm e), w1)
              | Inr w2 \<Rightarrow>
                  (case acm_describe w2 cert_arn of
                     Inl e \<Rightarrow> (Inl (Acm e), w2)
                   | Inr info \<Rightarrow>
                       (Inr \<lparr>Certificate = cd_Certificate cert_data,
                             CertificateArn = cert_arn,
                             CertificateChain = cd_CertificateChain cert_data,
                             NotAfter = i_NotAfter info,
                             PrivateKey = cd_PrivateKey cert_data\<rparr>, w2))))"

section \<open>The top-level routine\<close>

text \<open>The body of the \<open>if\<close> of \<open>lambda_handler\<close>: \<open>provision_cert\<close>, then \<open>import_cert\<close>.\<close>

definition renew :: "config \<Rightarrow> world \<Rightarrow> (error + Certificate) \<times> world" where
  "renew cfg w =
     (case provision_cert cfg w of
        Inl e \<Rightarrow> (Inl e, w)
      | Inr cert_data \<Rightarrow> import_cert cfg w cert_data)"

text \<open>The \<open>return\<close> of \<open>lambda_handler\<close>: the dictionary built from \<open>cert\<close>.\<close>

definition response_of :: "Certificate \<Rightarrow> response" where
  "response_of cert =
     \<lparr>r_Certificate = Certificate cert,
      r_CertificateArn = CertificateArn cert,
      r_CertificateChain = CertificateChain cert,
      r_PrivateKey = PrivateKey cert\<rparr>"

definition finish :: "(error + Certificate) \<times> world \<Rightarrow> (error + response) \<times> world" where
  "finish rw = (case rw of (Inl e, w) \<Rightarrow> (Inl e, w) | (Inr cert, w) \<Rightarrow> (Inr (response_of cert), w))"

text \<open>
  \<open>lambda_handler\<close>. \<open>not cert or get_days_remaining(cert) <= 30\<close> evaluates the second
  operand only for a certificate that was found.
\<close>

definition lambda_handler :: "config \<Rightarrow> world \<Rightarrow> (error + response) \<times> world" where
  "lambda_handler cfg w =
     (case find_latest_cert cfg w of
        Inl e \<Rightarrow> (Inl e, w)
      | Inr None \<Rightarrow> finish (renew cfg w)
      | Inr (Some cert) \<Rightarrow>
          (case get_days_remaining w cert of
             Inl e \<Rightarrow> (Inl e, w)
           | Inr days_remaining \<Rightarrow>
               if days_remaining \<le> 30 then finish (renew cfg w)
               else finish (Inr cert, w)))"

section \<open>Notions used to state the properties\<close>

text \<open>
  The certificates the paginator lists, in the order the loops visit them.
\<close>

definition listed :: "world \<Rightarrow> cert_summary list" where
  "listed w = concat (map (\<lambda>p. case p of Inl e \<Rightarrow> [] | Inr page \<Rightarrow> page) (acm_pages w))"

text \<open>
  A private key is retrievable for an identifier when \<open>get_parameter\<close> answers, under the
  name derived from the identifier, with a value that passes the test \<open>if not private_key\<close>.
\<close>

definition key_retrievable :: "config \<Rightarrow> world \<Rightarrow> string \<Rightarrow> bool" where
  "key_retrievable cfg w cert_arn =
     (case ssm_get w (get_ssm_param_name cfg cert_arn) of
        Inl e \<Rightarrow> False
      | Inr k \<Rightarrow> k \<noteq> [])"

text \<open>
  An eligible candidate: a listed certificate for the managed subject that was imported,
  whose alternate names are exactly the managed domains, whose issuer passes the test
  \<open>'fake' in issuer.lower()\<close> exactly in staging mode, and whose key is retrievable.
\<close>

definition eligible :: "config \<Rightarrow> world \<Rightarrow> cert_summary \<Rightarrow> bool" where
  "eligible cfg w s =
     (s_DomainName s = SUBJECT cfg \<and>
      (case acm_describe w (s_CertificateArn s) of
         Inl e \<Rightarrow> False
       | Inr info \<Rightarrow>
           i_ImportedAt info \<noteq> None \<and>
           set (i_SubjectAlternativeNames info) = set (DOMAINS cfg) \<and>
           str_in ''fake'' (str_lower w (i_Issuer info)) = STAGING cfg \<and>
           key_retrievable cfg w (s_CertificateArn s)))"

text \<open>An eligible candidate together with its metadata and its key.\<close>

definition picked :: "config \<Rightarrow> world \<Rightarrow> cert_summary \<Rightarrow> cert_info \<Rightarrow> string \<Rightarrow> bool" where
  "picked cfg w s info k =
     (eligible cfg w s \<and> acm_describe w (s_CertificateArn s) = Inr info \<and>
      ssm_get w (get_ssm_param_name cfg (s_CertificateArn s)) = Inr k)"

text \<open>The loop variable holds a certificate imported at \<open>t\<close> or later.\<close>

definition dominates :: "(cert_info \<times> string) option \<Rightarrow> int \<Rightarrow> bool" where
  "dominates latest t =
     (case latest of
        None \<Rightarrow> False
      | Some (li, lk) \<Rightarrow> (case i_ImportedAt li of None \<Rightarrow> False | Some lt \<Rightarrow> t \<le> lt))"

text \<open>The loop variable, when set, holds an imported certificate.\<close>

definition latest_ok :: "(cert_info \<times> string) option \<Rightarrow> bool" where
  "latest_ok latest =
     (case latest of None \<Rightarrow> True | Some (li, lk) \<Rightarrow> i_ImportedAt li \<noteq> None)"

text \<open>
  The stores answer every read the Locator can make for a listed certificate: its
  description, its parameter (found or not found) and its body with a chain.
  \<open>fault_free\<close> says so of every page and every listed certificate.
\<close>

definition answers :: "config \<Rightarrow> world \<Rightarrow> cert_summary \<Rightarrow> bool" where
  "answers cfg w s =
     (if s_DomainName s \<noteq> SUBJECT cfg then True
      else
        (case acm_describe w (s_CertificateArn s) of
           Inl e \<Rightarrow> False
         | Inr info \<Rightarrow>
             (case ssm_get w (get_ssm_param_name cfg (s_CertificateArn s)) of
                Inl ParameterNotFound \<Rightarrow> True
              | Inl (SsmFailure m) \<Rightarrow> False
              | Inr k \<Rightarrow> True) \<and>
             (case acm_get w (i_CertificateArn info) of
                Inl e \<Rightarrow> False
              | Inr body \<Rightarrow> b_CertificateChain body \<noteq> None)))"

definition fault_free :: "config \<Rightarrow> world \<Rightarrow> bool" where
  "fault_free cfg w =
     (list_all (\<lambda>p. case p of Inl e \<Rightarrow> False | Inr page \<Rightarrow> True) (acm_pages w) \<and>
      list_all (answers cfg w) (listed w))"

text \<open>
  \<open>describe_certificate\<close> answers about the certificate it was asked about: the identifier
  in the description of a listed certificate is the identifier that was listed.
\<close>

definition describe_consistent :: "world \<Rightarrow> bool" where
  "describe_consistent w =
     list_all (\<lambda>s. case acm_describe w (s_CertificateArn s) of
                      Inl e \<Rightarrow> True
                    | Inr info \<Rightarrow> i_CertificateArn info = s_CertificateArn s) (listed w)"

text \<open>The world in which \<open>get_parameter\<close> answers \<open>answer\<close> for the name \<open>n\<close>.\<close>

definition with_parameter :: "world \<Rightarrow> string \<Rightarrow> ssm_error + string \<Rightarrow> world" where
  "with_parameter w n answer = w\<lparr>ssm_get := (ssm_get w)(n := answer)\<rparr>"

text \<open>
  The calendar: the date of a \<open>datetime\<close>, the dates the \<open>date\<close> constructor accepts, the
  day after a date, and the date \<open>n\<close> days after a date.
\<close>

definition date_part :: "datetime \<Rightarrow> date" where
  "date_part t = \<lparr>d_year = year t, d_month = month t, d_day = day t\<rparr>"

definition month_day_ok :: "date \<Rightarrow> bool" where
  "month_day_ok dt =
     (1 \<le> d_month dt \<and> d_month dt \<le> 12 \<and>
      1 \<le> d_day dt \<and> d_day dt \<le> days_in_month (d_year dt) (d_month dt))"

definition valid_date :: "date \<Rightarrow> bool" where
  "valid_date dt =
     (1 \<le> d_year dt \<and> d_year dt \<le> 9999 \<and> 1 \<le> d_month dt \<and> d_month dt \<le> 12 \<and>
      1 \<le> d_day dt \<and> d_day dt \<le> days_in_month (d_year dt) (d_month dt))"

definition next_day :: "date \<Rightarrow> date" where
  "next_day dt =
     (if d_day dt < days_in_month (d_year dt) (d_month dt)
      then \<lparr>d_year = d_year dt, d_month = d_month dt, d_day = d_day dt + 1\<rparr>
      else if d_month dt < 12
      then \<lparr>d_year = d_year dt, d_month = d_month dt + 1, d_day = 1\<rparr>
      else \<lparr>d_year = d_year dt + 1, d_month = 1, d_day = 1\<rparr>)"

primrec plus_days :: "date \<Rightarrow> nat \<Rightarrow> date" where
  "plus_days dt 0 = dt"
| "plus_days dt (Suc n) = next_day (plus_days dt n)"

section \<open>A concrete inventory\<close>

text \<open>
  Seven certificates on two pages, for the managed domains \<open>example.com\<close> and
  \<open>www.example.com\<close> in production mode. \<open>c1\<close> and \<open>c2\<close> are eligible, \<open>c2\<close> imported
  later; \<open>c3\<close> lacks an alternate name, \<open>c4\<close> comes from the staging authority, \<open>c5\<close> has
  no stored key, \<open>c6\<close> is for another subject and \<open>c7\<close> was not imported. Each of \<open>c3\<close>,
  \<open>c4\<close> and \<open>c5\<close> was imported after \<open>c2\<close>.
\<close>

text \<open>
  \<open>str.lower()\<close> on the characters the examples use: an ASCII capital becomes its small
  letter, KELVIN SIGN (U+212A, the bytes E2 84 AA) becomes \<open>k\<close>, and the other ASCII
  characters stay as they are.
\<close>

definition lower_char :: "char \<Rightarrow> char" where
  "lower_char c =
     (case map_of (zip ''ABCDEFGHIJKLMNOPQRSTUVWXYZ'' ''abcdefghijklmnopqrstuvwxyz'') c of
        Some l \<Rightarrow> l
      | None \<Rightarrow> c)"

definition KELVIN_SIGN :: string where
  "KELVIN_SIGN = [CHR 0xE2, CHR 0x84, CHR 0xAA]"

fun lower_ex :: "string \<Rightarrow> string" where
  "lower_ex [] = []"
| "lower_ex (c # cs) =
     (if starts_with KELVIN_SIGN (c # cs) then CHR ''k'' # lower_ex (drop 2 cs)
      else lower_char c # lower_ex cs)"

definition cfg_ex :: config where
  "cfg_ex = \<lparr>DOMAINS = [''example.com'', ''www.example.com''], SUBJECT = ''example.com'',
             EMAIL_ADDRESS = ''ops@example.com'', FUNCTION_NAME = ''lets-encrypt'',
             STAGING = False\<rparr>"

definition cfg_staging_ex :: config where
  "cfg_staging_ex = \<lparr>DOMAINS = [''example.com'', ''www.example.com''], SUBJECT = ''example.com'',
             EMAIL_ADDRESS = ''ops@example.com'', FUNCTION_NAME = ''lets-encrypt'',
             STAGING = True\<rparr>"

definition at_noon :: "int \<Rightarrow> int \<Rightarrow> int \<Rightarrow> datetime" where
  "at_noon y m d = \<lparr>year = y, month = m, day = d, hour = 12, minute = 0, second = 0,
                    microsecond = 0\<rparr>"

definition on_day :: "int \<Rightarrow> int \<Rightarrow> int \<Rightarrow> date" where
  "on_day y m d = \<lparr>d_year = y, d_month = m, d_day = d\<rparr>"

definition info_ex :: "string \<Rightarrow> int option \<Rightarrow> string list \<Rightarrow> string \<Rightarrow> datetime \<Rightarrow> cert_info" where
  "info_ex arn at sans issuer na =
     \<lparr>i_CertificateArn = arn, i_ImportedAt = at, i_SubjectAlternativeNames = sans,
      i_Issuer = issuer, i_NotAfter = na\<rparr>"

definition summary_ex :: "string \<Rightarrow> string \<Rightarrow> cert_summary" where
  "summary_ex name arn = \<lparr>s_DomainName = name, s_CertificateArn = arn\<rparr>"

definition w_ex :: world where
  "w_ex =
     \<lparr>acm_pages =
        [Inr [summary_ex ''example.com'' ''arn:acm/c3'',
              summary_ex ''example.com'' ''arn:acm/c2'',
              summary_ex ''other.org'' ''arn:acm/c6''],
         Inr [summary_ex ''example.com'' ''arn:acm/c5'',
              summary_ex ''example.com'' ''arn:acm/c1'',
              summary_ex ''example.com'' ''arn:acm/c4'',
              summary_ex ''example.com'' ''arn:acm/c7'']],
      acm_describe = (\<lambda>arn.
        if arn = ''arn:acm/c1'' then
          Inr (info_ex arn (Some 100) [''example.com'', ''www.example.com'']
                 ''Let's Encrypt Authority X3'' (at_noon 2024 5 1))
        else if arn = ''arn:acm/c2'' then
          Inr (info_ex arn (Some 200) [''www.example.com'', ''example.com'']
                 ''Let's Encrypt Authority X3'' (at_noon 2024 6 15))
        else if arn = ''arn:acm/c3'' then
          Inr (info_ex arn (Some 300) [''example.com'']
                 ''Let's Encrypt Authority X3'' (at_noon 2024 7 1))
        else if arn = ''arn:acm/c4'' then
          Inr (info_ex arn (Some 400) [''example.com'', ''www.example.com'']
                 ''Fake LE Intermediate X1'' (at_noon 2024 7 2))
        else if arn = ''arn:acm/c5'' then
          Inr (info_ex arn (Some 500) [''example.com'', ''www.example.com'']
                 ''Let's Encrypt Authority X3'' (at_noon 2024 7 3))
        else if arn = ''arn:acm/c6'' then
          Inr (info_ex arn (Some 600) [''other.org'']
                 ''Let's Encrypt Authority X3'' (at_noon 2024 7 4))
        else if arn = ''arn:acm/c7'' then
          Inr (info_ex arn None [''example.com'', ''www.example.com'']
                 ''Amazon'' (at_noon 2025 1 1))
        else Inl (AcmFailure ''ResourceNotFoundException'')),
      acm_get = (\<lambda>arn.
        if arn \<in> set [''arn:acm/c1'', ''arn:acm/c2'', ''arn:acm/c3'', ''arn:acm/c4'',
                      ''arn:acm/c5'', ''arn:acm/c6'', ''arn:acm/c7'']
        then Inr \<lparr>b_Certificate = ''CERT '' @ arn, b_CertificateChain = Some (''CHAIN '' @ arn)\<rparr>
        else Inl (AcmFailure ''ResourceNotFoundException'')),
      ssm_get = (\<lambda>name.
        if name = ''/lets-encrypt/c1/PrivateKey'' then Inr ''KEY c1''
        else if name = ''/lets-encrypt/c2/PrivateKey'' then Inr ''KEY c2''
        else if name = ''/lets-encrypt/c3/PrivateKey'' then Inr ''KEY c3''
        else if name = ''/lets-encrypt/c4/PrivateKey'' then Inr ''KEY c4''
        else Inl ParameterNotFound),
      today = on_day 2024 4 1,
      acm_import_answer = (\<lambda>cd. Inl (AcmFailure ''LimitExceededException'')),
      ssm_put_fault = (\<lambda>name. None),
      temp_dir_answer = Inr ''/tmp/tmpab12cd'',
      certbot_answer = (\<lambda>args. Inl (CertbotError ''no network'')),
      str_lower = lower_ex\<rparr>"

text \<open>The same inventory on another day, listed in the opposite order, and empty.\<close>

definition w_on :: "date \<Rightarrow> world" where
  "w_on d = w_ex\<lparr>today := d\<rparr>"

definition w_rev_ex :: world where
  "w_rev_ex = w_ex\<lparr>acm_pages := rev (map (map_sum id rev) (acm_pages w_ex))\<rparr>"

definition w_empty_ex :: world where
  "w_empty_ex = w_ex\<lparr>acm_pages := []\<rparr>"



text \<open>
  The same inventory with one more certificate \<open>k1\<close>, the most recently imported, right
  in its names and with a stored key, whose issuer spells the marker with KELVIN SIGN
  in the place of the letter K.
\<close>

definition kelvin_issuer :: string where
  "kelvin_issuer = ''FA'' @ KELVIN_SIGN @ ''E LE Intermediate X1''"

definition info_k1 :: cert_info where
  "info_k1 = info_ex ''arn:acm/k1'' (Some 700) [''example.com'', ''www.example.com'']
               kelvin_issuer (at_noon 2024 8 1)"

definition w_kelvin_ex :: world where
  "w_kelvin_ex =
     w_ex\<lparr>acm_pages := acm_pages w_ex @ [Inr [summary_ex ''example.com'' ''arn:acm/k1'']],
          acm_describe := (acm_describe w_ex)(''arn:acm/k1'' := Inr info_k1),
          acm_get := (acm_get w_ex)(''arn:acm/k1'' :=
            Inr \<lparr>b_Certificate = ''CERT arn:acm/k1'',
                 b_CertificateChain = Some ''CHAIN arn:acm/k1''\<rparr>),
          ssm_get := (ssm_get w_ex)(''/lets-encrypt/k1/PrivateKey'' := Inr ''KEY k1'')\<rparr>"

definition cert_k1 :: Certificate where
  "cert_k1 = \<lparr>Certificate = ''CERT arn:acm/k1'', CertificateArn = ''arn:acm/k1'',
               CertificateChain = ''CHAIN arn:acm/k1'', NotAfter = at_noon 2024 8 1,
               PrivateKey = ''KEY k1''\<rparr>"

text \<open>The same inventory when \<open>c2\<close> was imported without a chain.\<close>

definition w_chainless_ex :: world where
  "w_chainless_ex =
     w_ex\<lparr>acm_get := (acm_get w_ex)(''arn:acm/c2'' :=
            Inr \<lparr>b_Certificate = ''CERT arn:acm/c2'', b_CertificateChain = None\<rparr>)\<rparr>"

text \<open>
  A world in which everything outside the module would let a renewal through: the
  temporary directory can be made, the ACME client leaves its three files where
  \<open>provision_cert\<close> reads them, and ACM and SSM accept the import.
\<close>

definition renewable :: "world \<Rightarrow> world" where
  "renewable w =
     w\<lparr>acm_import_answer := (\<lambda>cd.
          Inr (summary_ex ''example.com'' ''arn:acm/n1'',
               info_ex ''arn:acm/n1'' (Some 800) [''example.com'', ''www.example.com'']
                 ''Let's Encrypt Authority X3'' (at_noon 2024 9 1))),
        ssm_put_fault := (\<lambda>name. None),
        temp_dir_answer := Inr ''/tmp/tmpab12cd'',
        certbot_answer := (\<lambda>args.
          Inr (\<lambda>path.
            if path = ''/tmp/tmpab12cd/lets-encrypt/config/live/example.com/cert.pem''
            then Some ''NEW CERT''
            else if path = ''/tmp/tmpab12cd/lets-encrypt/config/live/example.com/fullchain.pem''
            then Some ''NEW CHAIN''
            else if path = ''/tmp/tmpab12cd/lets-encrypt/config/live/example.com/privkey.pem''
            then Some ''NEW KEY''
            else None))\<rparr>"


definition w_emptykey_ex :: world where
  "w_emptykey_ex = with_parameter w_ex ''/lets-encrypt/c2/PrivateKey'' (Inr [])"

definition w_nokey_ex :: world where
  "w_nokey_ex = with_parameter w_ex ''/lets-encrypt/c2/PrivateKey'' (Inl ParameterNotFound)"

text \<open>The records the Locator assembles for \<open>c1\<close>, \<open>c2\<close> and \<open>c4\<close>.\<close>

definition cert_c1 :: Certificate where
  "cert_c1 = \<lparr>Certificate = ''CERT arn:acm/c1'', CertificateArn = ''arn:acm/c1'',
               CertificateChain = ''CHAIN arn:acm/c1'', NotAfter = at_noon 2024 5 1,
               PrivateKey = ''KEY c1''\<rparr>"

definition cert_c2 :: Certificate where
  "cert_c2 = \<lparr>Certificate = ''CERT arn:acm/c2'', CertificateArn = ''arn:acm/c2'',
               CertificateChain = ''CHAIN arn:acm/c2'', NotAfter = at_noon 2024 6 15,
               PrivateKey = ''KEY c2''\<rparr>"

definition info_c2 :: cert_info where
  "info_c2 = info_ex ''arn:acm/c2'' (Some 200) [''www.example.com'', ''example.com'']
               ''Let's Encrypt Authority X3'' (at_noon 2024 6 15)"

definition cert_c4 :: Certificate where
  "cert_c4 = \<lparr>Certificate = ''CERT arn:acm/c4'', CertificateArn = ''arn:acm/c4'',
               CertificateChain = ''CHAIN arn:acm/c4'', NotAfter = at_noon 2024 7 2,
               PrivateKey = ''KEY c4''\<rparr>"


section \<open>The Locator's loop\<close>

text \<open>
  One iteration either leaves the loop variable as it was or sets it to the candidate it
  examined, and then that candidate is eligible.
\<close>

lemma examine_origin:
  assumes "examine cfg w latest s = Inr l'"
  shows "l' = latest \<or> (\<exists>info k. l' = Some (info, k) \<and> picked cfg w s info k)"
  using assms
  by (auto simp: examine_def picked_def eligible_def key_retrievable_def get_private_key_def Let_def
      split: if_splits sum.splits option.splits bool.splits ssm_error.splits prod.splits)

text \<open>The import time the loop variable holds never goes down.\<close>

lemma examine_mono:
  assumes "examine cfg w latest s = Inr l'" "dominates latest t"
  shows "dominates l' t"
  using assms
  by (auto simp: examine_def dominates_def get_private_key_def Let_def
      split: if_splits sum.splits option.splits bool.splits ssm_error.splits prod.splits)

text \<open>After an eligible candidate was examined, the loop variable holds one at least as recent.\<close>

lemma examine_covers:
  assumes "examine cfg w latest s = Inr l'" "picked cfg w s info k" "i_ImportedAt info = Some t"
  shows "dominates l' t"
  using assms
  by (auto simp: examine_def dominates_def picked_def eligible_def key_retrievable_def get_private_key_def Let_def
      split: if_splits sum.splits option.splits bool.splits ssm_error.splits prod.splits)

lemma scan_page_origin:
  assumes "scan_page cfg w latest ss = Inr l'"
  shows "l' = latest \<or> (\<exists>s \<in> set ss. \<exists>info k. l' = Some (info, k) \<and> picked cfg w s info k)"
  using assms
proof (induction ss arbitrary: latest)
  case Nil
  then show ?case by simp
next
  case (Cons s ss)
  then obtain l1 where e: "examine cfg w latest s = Inr l1" and r: "scan_page cfg w l1 ss = Inr l'"
    by (auto split: sum.splits)
  from Cons.IH [OF r] examine_origin [OF e] show ?case by auto
qed

lemma scan_page_mono:
  assumes "scan_page cfg w latest ss = Inr l'" "dominates latest t"
  shows "dominates l' t"
  using assms
proof (induction ss arbitrary: latest)
  case Nil
  then show ?case by simp
next
  case (Cons s ss)
  then obtain l1 where e: "examine cfg w latest s = Inr l1" and r: "scan_page cfg w l1 ss = Inr l'"
    by (auto split: sum.splits)
  from examine_mono [OF e Cons.prems(2)] Cons.IH [OF r] show ?case by blast
qed

lemma scan_page_covers:
  assumes "scan_page cfg w latest ss = Inr l'" "s \<in> set ss" "picked cfg w s info k"
    "i_ImportedAt info = Some t"
  shows "dominates l' t"
  using assms
proof (induction ss arbitrary: latest)
  case Nil
  then show ?case by simp
next
  case (Cons a ss)
  then obtain l1 where e: "examine cfg w latest a = Inr l1" and r: "scan_page cfg w l1 ss = Inr l'"
    by (auto split: sum.splits)
  show ?case
  proof (cases "s = a")
    case True
    with e Cons.prems(3,4) have "dominates l1 t" by (auto intro: examine_covers)
    with r show ?thesis by (rule scan_page_mono)
  next
    case False
    with Cons.prems(2) have "s \<in> set ss" by simp
    from Cons.IH [OF r this Cons.prems(3,4)] show ?thesis .
  qed
qed

lemma scan_pages_origin:
  assumes "scan_pages cfg w latest ps = Inr l'"
  shows "l' = latest \<or>
     (\<exists>page s info k. Inr page \<in> set ps \<and> s \<in> set page \<and> l' = Some (info, k) \<and> picked cfg w s info k)"
  using assms
proof (induction cfg w latest ps rule: scan_pages.induct)
  case (1 cfg w latest)
  then show ?case by simp
next
  case (2 cfg w latest e pages)
  then show ?case by simp
next
  case (3 cfg w latest page pages)
  then obtain l1 where e: "scan_page cfg w latest page = Inr l1"
    and r: "scan_pages cfg w l1 pages = Inr l'"
    by (auto split: sum.splits)
  from "3.IH" [OF e r] scan_page_origin [OF e] show ?case by fastforce
qed

lemma scan_pages_mono:
  assumes "scan_pages cfg w latest ps = Inr l'" "dominates latest t"
  shows "dominates l' t"
  using assms
proof (induction cfg w latest ps rule: scan_pages.induct)
  case (3 cfg w latest page pages)
  then obtain l1 where e: "scan_page cfg w latest page = Inr l1"
    and r: "scan_pages cfg w l1 pages = Inr l'"
    by (auto split: sum.splits)
  from scan_page_mono [OF e "3.prems"(2)] "3.IH" [OF e r] show ?case by blast
qed simp_all

lemma scan_pages_covers:
  assumes "scan_pages cfg w latest ps = Inr l'" "Inr page \<in> set ps" "s \<in> set page"
    "picked cfg w s info k" "i_ImportedAt info = Some t"
  shows "dominates l' t"
  using assms
proof (induction cfg w latest ps rule: scan_pages.induct)
  case (3 cfg w latest pg pages)
  then obtain l1 where e: "scan_page cfg w latest pg = Inr l1"
    and r: "scan_pages cfg w l1 pages = Inr l'"
    by (auto split: sum.splits)
  show ?case
  proof (cases "page = pg")
    case True
    with e "3.prems"(3,4,5) have "dominates l1 t" by (auto intro: scan_page_covers)
    with r show ?thesis by (rule scan_pages_mono)
  next
    case False
    with "3.prems"(2) have "Inr page \<in> set pages" by simp
    from "3.IH" [OF e r this "3.prems"(3,4,5)] show ?thesis .
  qed
qed simp_all

lemma in_listed: "s \<in> set (listed w) \<longleftrightarrow> (\<exists>page. Inr page \<in> set (acm_pages w) \<and> s \<in> set page)"
  by (auto simp: listed_def split: sum.splits)

text \<open>What a normal return of the Locator says about the inventory.\<close>

lemma find_latest_cert_none:
  assumes "find_latest_cert cfg w = Inr None"
  shows "\<forall>s \<in> set (listed w). \<not> eligible cfg w s"
proof
  fix s assume s: "s \<in> set (listed w)"
  from assms have sc: "scan_pages cfg w None (acm_pages w) = Inr None"
    by (auto simp: find_latest_cert_def Let_def split: sum.splits option.splits prod.splits)
  show "\<not> eligible cfg w s"
  proof
    assume el: "eligible cfg w s"
    then obtain info k t where p: "picked cfg w s info k" and t: "i_ImportedAt info = Some t"
      by (auto simp: picked_def eligible_def key_retrievable_def split: sum.splits)
    from s obtain page where "Inr page \<in> set (acm_pages w)" "s \<in> set page"
      by (auto simp: in_listed)
    from scan_pages_covers [OF sc this p t] show False by (simp add: dominates_def)
  qed
qed

lemma find_latest_cert_some:
  assumes "find_latest_cert cfg w = Inr (Some cert)"
  shows "\<exists>s info k body chain t. s \<in> set (listed w) \<and> picked cfg w s info k \<and>
           i_ImportedAt info = Some t \<and>
           acm_get w (i_CertificateArn info) = Inr body \<and>
           b_CertificateChain body = Some chain \<and>
           cert = \<lparr>Certificate = b_Certificate body, CertificateArn = i_CertificateArn info,
                   CertificateChain = chain, NotAfter = i_NotAfter info,
                   PrivateKey = k\<rparr> \<and>
           (\<forall>s' info' k' t'. s' \<in> set (listed w) \<longrightarrow> picked cfg w s' info' k' \<longrightarrow>
                i_ImportedAt info' = Some t' \<longrightarrow> t' \<le> t)"
proof -
  from assms obtain info k body chain where
    sc: "scan_pages cfg w None (acm_pages w) = Inr (Some (info, k))"
    and body: "acm_get w (i_CertificateArn info) = Inr body"
    and chain: "b_CertificateChain body = Some chain"
    and cert: "cert = \<lparr>Certificate = b_Certificate body, CertificateArn = i_CertificateArn info,
                   CertificateChain = chain, NotAfter = i_NotAfter info,
                   PrivateKey = k\<rparr>"
    by (auto simp: find_latest_cert_def Let_def split: sum.splits option.splits prod.splits)
  from scan_pages_origin [OF sc] obtain s where
    s: "s \<in> set (listed w)" and p: "picked cfg w s info k"
    by (auto simp: in_listed)
  from p obtain t where t: "i_ImportedAt info = Some t"
    by (auto simp: picked_def eligible_def)
  have "t' \<le> t" if "s' \<in> set (listed w)" "picked cfg w s' info' k'" "i_ImportedAt info' = Some t'"
    for s' info' k' t'
  proof -
    from that(1) obtain page where "Inr page \<in> set (acm_pages w)" "s' \<in> set page"
      by (auto simp: in_listed)
    from scan_pages_covers [OF sc this that(2,3)] t show ?thesis
      by (simp add: dominates_def)
  qed
  with s p t body chain cert show ?thesis by blast
qed

text \<open>When the stores answer, every iteration completes, and so does the Locator.\<close>

lemma examine_total:
  assumes "latest_ok latest" "answers cfg w s"
  shows "\<exists>l'. examine cfg w latest s = Inr l' \<and> latest_ok l'"
  using assms
  by (auto simp: examine_def answers_def latest_ok_def get_private_key_def Let_def
      split: if_splits sum.splits option.splits bool.splits ssm_error.splits prod.splits)

lemma scan_page_total:
  assumes "latest_ok latest" "list_all (answers cfg w) ss"
  shows "\<exists>l'. scan_page cfg w latest ss = Inr l' \<and> latest_ok l'"
  using assms
proof (induction ss arbitrary: latest)
  case Nil
  then show ?case by simp
next
  case (Cons s ss)
  from Cons.prems have "answers cfg w s" and rest: "list_all (answers cfg w) ss" by simp_all
  from examine_total [OF Cons.prems(1) this(1)] obtain l1
    where e: "examine cfg w latest s = Inr l1" and ok: "latest_ok l1" by blast
  from Cons.IH [OF ok rest] e show ?case by simp
qed

lemma scan_pages_total:
  assumes "latest_ok latest"
    "list_all (\<lambda>p. case p of Inl e \<Rightarrow> False | Inr page \<Rightarrow> True) ps"
    "list_all (answers cfg w) (concat (map (\<lambda>p. case p of Inl e \<Rightarrow> [] | Inr page \<Rightarrow> page) ps))"
  shows "\<exists>l'. scan_pages cfg w latest ps = Inr l' \<and> latest_ok l'"
  using assms
proof (induction cfg w latest ps rule: scan_pages.induct)
  case (1 cfg w latest)
  then show ?case by simp
next
  case (2 cfg w latest e pages)
  then show ?case by simp
next
  case (3 cfg w latest page pages)
  from "3.prems" have pg: "list_all (answers cfg w) page" by simp
  from scan_page_total [OF "3.prems"(1) pg] obtain l1
    where e: "scan_page cfg w latest page = Inr l1" and ok: "latest_ok l1" by blast
  from "3.prems" have "\<exists>l'. scan_pages cfg w l1 pages = Inr l' \<and> latest_ok l'"
    by (intro "3.IH" [OF e ok]) simp_all
  with e show ?case by simp
qed

lemma find_latest_cert_total:
  assumes "fault_free cfg w"
  shows "\<exists>r. find_latest_cert cfg w = Inr r"
proof -
  from assms have
    "\<exists>l'. scan_pages cfg w None (acm_pages w) = Inr l' \<and> latest_ok l'"
    by (intro scan_pages_total) (simp_all add: fault_free_def latest_ok_def listed_def)
  then obtain l' where sc: "scan_pages cfg w None (acm_pages w) = Inr l'" by blast
  show ?thesis
  proof (cases l')
    case None
    with sc show ?thesis by (simp add: find_latest_cert_def)
  next
    case (Some a)
    obtain info k where a: "a = (info, k)" by (cases a)
    from scan_pages_origin [OF sc] Some a obtain s where
      s: "s \<in> set (listed w)" and p: "picked cfg w s info k"
      by (auto simp: in_listed)
    from assms s have "answers cfg w s" by (simp add: fault_free_def list_all_iff)
    with p obtain body chain where "acm_get w (i_CertificateArn info) = Inr body"
      "b_CertificateChain body = Some chain"
      by (auto simp: answers_def picked_def eligible_def split: if_splits sum.splits)
    with sc Some a show ?thesis by (simp add: find_latest_cert_def)
  qed
qed

text \<open>With consistent descriptions, the identifier returned is that of an eligible candidate.\<close>

lemma selected_is_listed:
  assumes "describe_consistent w" "find_latest_cert cfg w = Inr (Some cert)"
  shows "\<exists>s info k. s \<in> set (listed w) \<and> picked cfg w s info k \<and>
           CertificateArn cert = s_CertificateArn s"
proof -
  from find_latest_cert_some [OF assms(2)] obtain s info k where
    s: "s \<in> set (listed w)" and p: "picked cfg w s info k"
    and a: "CertificateArn cert = i_CertificateArn info"
    by auto
  from p have d: "acm_describe w (s_CertificateArn s) = Inr info" by (simp add: picked_def)
  from assms(1) s d have "i_CertificateArn info = s_CertificateArn s"
    by (auto simp: describe_consistent_def list_all_iff split: sum.splits)
  with s p a show ?thesis by auto
qed

text \<open>The concrete inventory, evaluated.\<close>

lemma module_config_ex:
  "module_config [''example.com'', ''www.example.com''] ''ops@example.com'' ''lets-encrypt'' ''0'' =
     Inr cfg_ex"
  "module_config [''example.com'', ''www.example.com''] ''ops@example.com'' ''lets-encrypt'' ''1'' =
     Inr cfg_staging_ex"
  by (simp_all add: module_config_def cfg_ex_def cfg_staging_ex_def)

lemma find_latest_cert_ex: "find_latest_cert cfg_ex w_ex = Inr (Some cert_c2)"
  by code_simp

lemma find_latest_cert_rev_ex: "find_latest_cert cfg_ex w_rev_ex = Inr (Some cert_c2)"
  by code_simp

lemma find_latest_cert_staging_ex: "find_latest_cert cfg_staging_ex w_ex = Inr (Some cert_c4)"
  by code_simp

lemma fault_free_ex: "fault_free cfg_ex w_ex"
  by code_simp

lemma find_latest_cert_kelvin_ex: "find_latest_cert cfg_ex w_kelvin_ex = Inr (Some cert_c2)"
  by code_simp

lemma find_latest_cert_kelvin_staging_ex:
  "find_latest_cert cfg_staging_ex w_kelvin_ex = Inr (Some cert_k1)"
  by code_simp

lemma fault_free_kelvin_ex: "fault_free cfg_ex w_kelvin_ex"
  by code_simp

lemma describe_consistent_kelvin_ex: "describe_consistent w_kelvin_ex"
  by code_simp

lemma lower_kelvin_ex: "lower_ex kelvin_issuer = ''fake le intermediate x1''"
  by code_simp

lemma find_latest_cert_chainless_ex:
  "find_latest_cert cfg_ex w_chainless_ex = Inl (KeyError ''CertificateChain'')"
  by code_simp

lemma describe_consistent_ex: "describe_consistent w_ex"
  by code_simp

lemma eligible_ex:
  "map (eligible cfg_ex w_ex) (listed w_ex) = [False, True, False, False, True, False, False]"
  by code_simp

section \<open>Properties of the Locator\<close>

text \<open>
  C2. When the stores answer every read and the inventory lists at least one eligible
  candidate, \<open>find_latest_cert\<close> returns the record of an eligible candidate \<open>s\<close>: its
  identifier and expiry from the description of \<open>s\<close>, its key from the parameter of \<open>s\<close>,
  its body and chain from \<open>get_certificate\<close>; and no eligible candidate was imported
  later than \<open>s\<close>. The comparison of import times comes before the other filters in the
  loop; the result is the same as filtering first. In the concrete inventory, with the
  two eligible candidates imported at 100 and at 200, the one imported at 200 is
  returned in either listing order, and also when \<open>k1\<close> is listed: in production mode
  \<open>k1\<close> is not eligible, its issuer lowering to one that contains the marker.
\<close>

theorem locator_selects_latest_eligible:
  assumes "fault_free cfg w" and "\<exists>s \<in> set (listed w). eligible cfg w s"
  shows "\<exists>s info k body chain t.
           s \<in> set (listed w) \<and> eligible cfg w s \<and>
           acm_describe w (s_CertificateArn s) = Inr info \<and>
           ssm_get w (get_ssm_param_name cfg (s_CertificateArn s)) = Inr k \<and>
           i_ImportedAt info = Some t \<and>
           acm_get w (i_CertificateArn info) = Inr body \<and>
           b_CertificateChain body = Some chain \<and>
           find_latest_cert cfg w =
             Inr (Some \<lparr>Certificate = b_Certificate body, CertificateArn = i_CertificateArn info,
                        CertificateChain = chain, NotAfter = i_NotAfter info,
                        PrivateKey = k\<rparr>) \<and>
           (\<forall>s' info' t'. s' \<in> set (listed w) \<longrightarrow> eligible cfg w s' \<longrightarrow>
                acm_describe w (s_CertificateArn s') = Inr info' \<longrightarrow>
                i_ImportedAt info' = Some t' \<longrightarrow> t' \<le> t)"
proof -
  from find_latest_cert_total [OF assms(1)] obtain r where r: "find_latest_cert cfg w = Inr r"
    by blast
  from assms(2) find_latest_cert_none [of cfg w] r obtain cert where c: "r = Some cert"
    by (cases r) auto
  from find_latest_cert_some [OF r [unfolded c]] obtain s info k body chain t where
    s: "s \<in> set (listed w)" and p: "picked cfg w s info k" and t: "i_ImportedAt info = Some t"
    and body: "acm_get w (i_CertificateArn info) = Inr body"
    and chain: "b_CertificateChain body = Some chain"
    and cert: "cert = \<lparr>Certificate = b_Certificate body, CertificateArn = i_CertificateArn info,
                   CertificateChain = chain, NotAfter = i_NotAfter info,
                   PrivateKey = k\<rparr>"
    and best: "\<forall>s' info' k' t'. s' \<in> set (listed w) \<longrightarrow> picked cfg w s' info' k' \<longrightarrow>
                i_ImportedAt info' = Some t' \<longrightarrow> t' \<le> t"
    by blast
  have "t' \<le> t" if "s' \<in> set (listed w)" "eligible cfg w s'"
    "acm_describe w (s_CertificateArn s') = Inr info'" "i_ImportedAt info' = Some t'"
    for s' info' t'
  proof -
    from that(2,3) obtain k' where "picked cfg w s' info' k'"
      by (auto simp: picked_def eligible_def key_retrievable_def split: sum.splits)
    with best that(1,4) show ?thesis by blast
  qed
  with s p t body chain r c cert show ?thesis
    unfolding picked_def by blast
qed

theorem locator_selects_latest_eligible_witness:
  "fault_free cfg_ex w_ex \<and> (\<exists>s \<in> set (listed w_ex). eligible cfg_ex w_ex s) \<and>
   map (eligible cfg_ex w_ex) (listed w_ex) = [False, True, False, False, True, False, False] \<and>
   find_latest_cert cfg_ex w_ex = Inr (Some cert_c2) \<and>
   find_latest_cert cfg_ex w_rev_ex = Inr (Some cert_c2) \<and>
   fault_free cfg_ex w_kelvin_ex \<and> (\<exists>s \<in> set (listed w_kelvin_ex). eligible cfg_ex w_kelvin_ex s) \<and>
   \<not> eligible cfg_ex w_kelvin_ex (summary_ex ''example.com'' ''arn:acm/k1'') \<and>
   find_latest_cert cfg_ex w_kelvin_ex = Inr (Some cert_c2) \<and>
   (\<exists>s info k body chain t.
      s \<in> set (listed w_ex) \<and> eligible cfg_ex w_ex s \<and>
      acm_describe w_ex (s_CertificateArn s) = Inr info \<and>
      ssm_get w_ex (get_ssm_param_name cfg_ex (s_CertificateArn s)) = Inr k \<and>
      i_ImportedAt info = Some t \<and>
      acm_get w_ex (i_CertificateArn info) = Inr body \<and>
      b_CertificateChain body = Some chain \<and>
      find_latest_cert cfg_ex w_ex =
        Inr (Some \<lparr>Certificate = b_Certificate body, CertificateArn = i_CertificateArn info,
                   CertificateChain = chain, NotAfter = i_NotAfter info,
                   PrivateKey = k\<rparr>) \<and>
      (\<forall>s' info' t'. s' \<in> set (listed w_ex) \<longrightarrow> eligible cfg_ex w_ex s' \<longrightarrow>
           acm_describe w_ex (s_CertificateArn s') = Inr info' \<longrightarrow>
           i_ImportedAt info' = Some t' \<longrightarrow> t' \<le> t)) \<and>
   (\<exists>s info k body chain t.
      s \<in> set (listed w_kelvin_ex) \<and> eligible cfg_ex w_kelvin_ex s \<and>
      acm_describe w_kelvin_ex (s_CertificateArn s) = Inr info \<and>
      ssm_get w_kelvin_ex (get_ssm_param_name cfg_ex (s_CertificateArn s)) = Inr k \<and>
      i_ImportedAt info = Some t \<and>
      acm_get w_kelvin_ex (i_CertificateArn info) = Inr body \<and>
      b_CertificateChain body = Some chain \<and>
      find_latest_cert cfg_ex w_kelvin_ex =
        Inr (Some \<lparr>Certificate = b_Certificate body, CertificateArn = i_CertificateArn info,
                   CertificateChain = chain, NotAfter = i_NotAfter info,
                   PrivateKey = k\<rparr>) \<and>
      (\<forall>s' info' t'. s' \<in> set (listed w_kelvin_ex) \<longrightarrow> eligible cfg_ex w_kelvin_ex s' \<longrightarrow>
           acm_describe w_kelvin_ex (s_CertificateArn s') = Inr info' \<longrightarrow>
           i_ImportedAt info' = Some t' \<longrightarrow> t' \<le> t))"
proof -
  have e: "\<exists>s \<in> set (listed w_ex). eligible cfg_ex w_ex s"
    by code_simp
  have ek: "\<exists>s \<in> set (listed w_kelvin_ex). eligible cfg_ex w_kelvin_ex s"
    by code_simp
  have nk: "\<not> eligible cfg_ex w_kelvin_ex (summary_ex ''example.com'' ''arn:acm/k1'')"
    by code_simp
  note a = locator_selects_latest_eligible [OF fault_free_ex e]
  note b = locator_selects_latest_eligible [OF fault_free_kelvin_ex ek]
  show ?thesis
    by (intro conjI)
      (rule fault_free_ex e eligible_ex find_latest_cert_ex find_latest_cert_rev_ex
        fault_free_kelvin_ex ek nk find_latest_cert_kelvin_ex a b)+
qed

text \<open>
  C3. Provided descriptions are consistent, a stored certificate whose set of alternate
  names differs from the set of managed domains is never the one \<open>find_latest_cert\<close>
  returns, whatever its expiry, issuer and import time: the record returned carries
  another identifier. In the concrete inventory \<open>c3\<close>, imported after \<open>c2\<close> and covering
  a subset of the domains, is passed over.
\<close>

theorem locator_requires_exact_names:
  assumes "describe_consistent w" and "find_latest_cert cfg w = Inr (Some cert)"
    and "acm_describe w arn = Inr info"
    and "set (i_SubjectAlternativeNames info) \<noteq> set (DOMAINS cfg)"
  shows "CertificateArn cert \<noteq> arn"
proof
  assume eq: "CertificateArn cert = arn"
  from selected_is_listed [OF assms(1,2)] obtain s info' k where
    p: "picked cfg w s info' k" and a: "CertificateArn cert = s_CertificateArn s"
    by blast
  from p a eq assms(3) have "eligible cfg w s" "acm_describe w (s_CertificateArn s) = Inr info"
    by (simp_all add: picked_def)
  then have "set (i_SubjectAlternativeNames info) = set (DOMAINS cfg)"
    by (simp add: eligible_def)
  with assms(4) show False by contradiction
qed

theorem locator_requires_exact_names_witness:
  "describe_consistent w_ex \<and> find_latest_cert cfg_ex w_ex = Inr (Some cert_c2) \<and>
   acm_describe w_ex ''arn:acm/c3'' =
     Inr (info_ex ''arn:acm/c3'' (Some 300) [''example.com'']
            ''Let's Encrypt Authority X3'' (at_noon 2024 7 1)) \<and>
   set [''example.com''] \<noteq> set (DOMAINS cfg_ex) \<and>
   CertificateArn cert_c2 \<noteq> ''arn:acm/c3''"
proof -
  have d: "acm_describe w_ex ''arn:acm/c3'' =
     Inr (info_ex ''arn:acm/c3'' (Some 300) [''example.com'']
            ''Let's Encrypt Authority X3'' (at_noon 2024 7 1))"
    by (simp add: w_ex_def)
  have n: "set (i_SubjectAlternativeNames (info_ex ''arn:acm/c3'' (Some 300) [''example.com'']
            ''Let's Encrypt Authority X3'' (at_noon 2024 7 1))) \<noteq> set (DOMAINS cfg_ex)"
    by (simp add: info_ex_def cfg_ex_def)
  from locator_requires_exact_names [OF describe_consistent_ex find_latest_cert_ex d n]
    describe_consistent_ex find_latest_cert_ex d n
  show ?thesis by (simp add: info_ex_def)
qed

text \<open>
  C4. Provided descriptions are consistent, a stored certificate for which no private key
  is retrievable under the name derived from its identifier is never the one
  \<open>find_latest_cert\<close> returns, whatever its other attributes. In the concrete inventory
  \<open>c5\<close>, the most recently imported certificate with the right names and issuer, has no
  parameter and is passed over.
\<close>

theorem locator_requires_key:
  assumes "describe_consistent w" and "find_latest_cert cfg w = Inr (Some cert)"
    and "\<not> key_retrievable cfg w arn"
  shows "CertificateArn cert \<noteq> arn"
proof
  assume eq: "CertificateArn cert = arn"
  from selected_is_listed [OF assms(1,2)] obtain s info' k where
    p: "picked cfg w s info' k" and a: "CertificateArn cert = s_CertificateArn s"
    by blast
  from p have "key_retrievable cfg w (s_CertificateArn s)"
    by (auto simp: picked_def eligible_def split: sum.splits)
  with a eq assms(3) show False by simp
qed

theorem locator_requires_key_witness:
  "describe_consistent w_ex \<and> find_latest_cert cfg_ex w_ex = Inr (Some cert_c2) \<and>
   ssm_get w_ex (get_ssm_param_name cfg_ex ''arn:acm/c5'') = Inl ParameterNotFound \<and>
   \<not> key_retrievable cfg_ex w_ex ''arn:acm/c5'' \<and>
   CertificateArn cert_c2 \<noteq> ''arn:acm/c5''"
proof -
  have g: "ssm_get w_ex (get_ssm_param_name cfg_ex ''arn:acm/c5'') = Inl ParameterNotFound"
    by code_simp
  have n: "\<not> key_retrievable cfg_ex w_ex ''arn:acm/c5''"
    by code_simp
  from locator_requires_key [OF describe_consistent_ex find_latest_cert_ex n]
    describe_consistent_ex find_latest_cert_ex g n
  show ?thesis by simp
qed


text \<open>\<open>p in s\<close> holds exactly when \<open>s\<close> is some text, then \<open>p\<close>, then some text.\<close>

lemma starts_with_iff: "starts_with p s \<longleftrightarrow> (\<exists>b. s = p @ b)"
  by (induction p s rule: starts_with.induct) auto

lemma str_in_iff: "str_in p s \<longleftrightarrow> (\<exists>a b. s = a @ p @ b)"
proof (induction s)
  case Nil
  show ?case by simp
next
  case (Cons c cs)
  show ?case
  proof
    assume "str_in p (c # cs)"
    then consider "starts_with p (c # cs)" | "str_in p cs" by auto
    then show "\<exists>a b. c # cs = a @ p @ b"
    proof cases
      case 1
      then obtain b where "c # cs = [] @ p @ b" by (auto simp: starts_with_iff)
      then show ?thesis by blast
    next
      case 2
      with Cons.IH obtain a b where "cs = a @ p @ b" by blast
      then have "c # cs = (c # a) @ p @ b" by simp
      then show ?thesis by blast
    qed
  next
    assume "\<exists>a b. c # cs = a @ p @ b"
    then obtain a b where ab: "c # cs = a @ p @ b" by blast
    show "str_in p (c # cs)"
    proof (cases a)
      case Nil
      with ab have "starts_with p (c # cs)" by (auto simp: starts_with_iff)
      then show ?thesis by simp
    next
      case (Cons x xs)
      with ab have "cs = xs @ p @ b" by simp
      with Cons.IH have "str_in p cs" by blast
      then show ?thesis by simp
    qed
  qed
qed


text \<open>
  C5. Provided descriptions are consistent, a stored certificate is never the one
  \<open>find_latest_cert\<close> returns unless its issuer passes the test
  \<open>'fake' in issuer.lower()\<close> exactly when \<open>STAGING\<close> is true, whatever \<open>str.lower()\<close>
  does to the issuer. So in staging mode an issuer that does not lower to one containing
  the marker excludes the certificate, and in production mode an issuer that does lower
  to one containing it excludes the certificate. In the concrete inventory \<open>c4\<close>, issued
  by the staging authority, and \<open>k1\<close>, whose issuer lowers to one containing the marker
  through KELVIN SIGN, are passed over in production mode; in staging mode \<open>k1\<close> is
  returned and \<open>c2\<close> is passed over.
\<close>

theorem locator_requires_issuer_mode:
  assumes "describe_consistent w" and "find_latest_cert cfg w = Inr (Some cert)"
    and "acm_describe w arn = Inr info"
    and "str_in ''fake'' (str_lower w (i_Issuer info)) \<noteq> STAGING cfg"
  shows "CertificateArn cert \<noteq> arn"
proof
  assume eq: "CertificateArn cert = arn"
  from selected_is_listed [OF assms(1,2)] obtain s info' k where
    p: "picked cfg w s info' k" and a: "CertificateArn cert = s_CertificateArn s"
    by blast
  from p a eq assms(3) have "eligible cfg w s" "acm_describe w (s_CertificateArn s) = Inr info"
    by (simp_all add: picked_def)
  then have "str_in ''fake'' (str_lower w (i_Issuer info)) = STAGING cfg"
    by (simp add: eligible_def)
  with assms(4) show False by contradiction
qed

theorem locator_requires_issuer_mode_witness:
  "describe_consistent w_kelvin_ex \<and>
   find_latest_cert cfg_ex w_kelvin_ex = Inr (Some cert_c2) \<and>
   acm_describe w_kelvin_ex ''arn:acm/c4'' =
     Inr (info_ex ''arn:acm/c4'' (Some 400) [''example.com'', ''www.example.com'']
            ''Fake LE Intermediate X1'' (at_noon 2024 7 2)) \<and>
   str_in ''fake'' (str_lower w_kelvin_ex ''Fake LE Intermediate X1'') \<noteq> STAGING cfg_ex \<and>
   CertificateArn cert_c2 \<noteq> ''arn:acm/c4'' \<and>
   acm_describe w_kelvin_ex ''arn:acm/k1'' = Inr info_k1 \<and>
   str_in ''fake'' (str_lower w_kelvin_ex kelvin_issuer) \<noteq> STAGING cfg_ex \<and>
   CertificateArn cert_c2 \<noteq> ''arn:acm/k1'' \<and>
   find_latest_cert cfg_staging_ex w_kelvin_ex = Inr (Some cert_k1) \<and>
   acm_describe w_kelvin_ex ''arn:acm/c2'' = Inr info_c2 \<and>
   str_in ''fake'' (str_lower w_kelvin_ex ''Let's Encrypt Authority X3'') \<noteq>
     STAGING cfg_staging_ex \<and>
   CertificateArn cert_k1 \<noteq> ''arn:acm/c2''"
proof -
  let ?info_c4 = "info_ex ''arn:acm/c4'' (Some 400) [''example.com'', ''www.example.com'']
            ''Fake LE Intermediate X1'' (at_noon 2024 7 2)"
  have d4: "acm_describe w_kelvin_ex ''arn:acm/c4'' = Inr ?info_c4"
    by code_simp
  have n4: "str_in ''fake'' (str_lower w_kelvin_ex (i_Issuer ?info_c4)) \<noteq> STAGING cfg_ex"
    by code_simp
  have dk: "acm_describe w_kelvin_ex ''arn:acm/k1'' = Inr info_k1"
    by code_simp
  have nk: "str_in ''fake'' (str_lower w_kelvin_ex (i_Issuer info_k1)) \<noteq> STAGING cfg_ex"
    by code_simp
  have d2: "acm_describe w_kelvin_ex ''arn:acm/c2'' = Inr info_c2"
    by code_simp
  have n2: "str_in ''fake'' (str_lower w_kelvin_ex (i_Issuer info_c2)) \<noteq> STAGING cfg_staging_ex"
    by code_simp
  have i4: "i_Issuer ?info_c4 = ''Fake LE Intermediate X1''"
    and ik: "i_Issuer info_k1 = kelvin_issuer"
    and i2: "i_Issuer info_c2 = ''Let's Encrypt Authority X3''"
    by (simp_all add: info_ex_def info_k1_def info_c2_def)
  note a = locator_requires_issuer_mode
    [OF describe_consistent_kelvin_ex find_latest_cert_kelvin_ex d4 n4]
  note b = locator_requires_issuer_mode
    [OF describe_consistent_kelvin_ex find_latest_cert_kelvin_ex dk nk]
  note c = locator_requires_issuer_mode
    [OF describe_consistent_kelvin_ex find_latest_cert_kelvin_staging_ex d2 n2]
  show ?thesis
    by (intro conjI)
      (rule describe_consistent_kelvin_ex find_latest_cert_kelvin_ex
        find_latest_cert_kelvin_staging_ex d4 dk d2 n4 [unfolded i4] nk [unfolded ik]
        n2 [unfolded i2] a b c)+
qed


section \<open>Properties of the top-level routine\<close>

lemma handler_none:
  "find_latest_cert cfg w = Inr None \<Longrightarrow> lambda_handler cfg w = finish (renew cfg w)"
  by (simp add: lambda_handler_def)

lemma handler_due:
  "find_latest_cert cfg w = Inr (Some cert) \<Longrightarrow> get_days_remaining w cert = Inr d \<Longrightarrow> d \<le> 30
     \<Longrightarrow> lambda_handler cfg w = finish (renew cfg w)"
  by (simp add: lambda_handler_def)

lemma handler_valid:
  "find_latest_cert cfg w = Inr (Some cert) \<Longrightarrow> get_days_remaining w cert = Inr d \<Longrightarrow> 30 < d
     \<Longrightarrow> lambda_handler cfg w = (Inr (response_of cert), w)"
  by (simp add: lambda_handler_def finish_def)


text \<open>The concrete inventory on three days, and empty.\<close>

lemma find_latest_cert_empty_ex: "find_latest_cert cfg_ex w_empty_ex = Inr None"
  by code_simp

lemma find_latest_cert_on_ex:
  "find_latest_cert cfg_ex (w_on (on_day 2024 5 15)) = Inr (Some cert_c2)"
  "find_latest_cert cfg_ex (w_on (on_day 2024 5 16)) = Inr (Some cert_c2)"
  "find_latest_cert cfg_ex (w_on (on_day 2024 6 16)) = Inr (Some cert_c2)"
  by code_simp+

lemma get_days_remaining_ex: "get_days_remaining w_ex cert_c2 = Inr 75"
  by code_simp

lemma get_days_remaining_on_ex:
  "get_days_remaining (w_on (on_day 2024 5 15)) cert_c2 = Inr 31"
  "get_days_remaining (w_on (on_day 2024 5 16)) cert_c2 = Inr 30"
  "get_days_remaining (w_on (on_day 2024 6 16)) cert_c2 = Inr (- 1)"
  by code_simp+

text \<open>
  C8. When the located certificate has more than 30 days remaining, two calls of
  \<open>lambda_handler\<close> in succession, the second on the world the first left, both return the
  response built from the located record, and both leave the world as it was: no import,
  no parameter written.
\<close>

theorem handler_idempotent_when_valid:
  assumes "find_latest_cert cfg w = Inr (Some cert)" and "get_days_remaining w cert = Inr d"
    and "30 < d"
  shows "(case lambda_handler cfg w of
            (r1, w1) \<Rightarrow>
              (case lambda_handler cfg w1 of
                 (r2, w2) \<Rightarrow> r1 = Inr (response_of cert) \<and> r2 = r1 \<and> w1 = w \<and> w2 = w))"
  using handler_valid [OF assms] by simp

theorem handler_idempotent_when_valid_witness:
  "find_latest_cert cfg_ex w_ex = Inr (Some cert_c2) \<and>
   get_days_remaining w_ex cert_c2 = Inr 75 \<and> (30::int) < 75 \<and>
   (case lambda_handler cfg_ex w_ex of
      (r1, w1) \<Rightarrow>
        (case lambda_handler cfg_ex w1 of
           (r2, w2) \<Rightarrow> r1 = Inr (response_of cert_c2) \<and> r2 = r1 \<and> w1 = w_ex \<and> w2 = w_ex))"
proof -
  have d: "(30::int) < 75" by simp
  from handler_idempotent_when_valid [OF find_latest_cert_ex get_days_remaining_ex d]
    find_latest_cert_ex get_days_remaining_ex d
  show ?thesis by (intro conjI)
qed

section \<open>The Executor as written\<close>

lemma certbot_unbound: "load_global ''certbot'' = Inl (NameError ''certbot'')"
  by (simp add: load_global_def module_globals_def)

lemma provision_cert_raises:
  "provision_cert cfg w =
     (case temp_dir_answer w of Inl e \<Rightarrow> Inl e | Inr temp_dir \<Rightarrow> Inl (NameError ''certbot''))"
  by (simp add: provision_cert_def certbot_unbound Let_def split: sum.splits)

lemma renew_fails: "\<exists>e. renew cfg w = (Inl e, w)"
  by (simp add: renew_def provision_cert_raises split: sum.splits)

lemma finish_renew_fails: "\<exists>e. finish (renew cfg w) = (Inl e, w)"
  using renew_fails [of cfg w] by (auto simp: finish_def)

lemma finish_renew_name_error:
  "temp_dir_answer w = Inr temp_dir \<Longrightarrow> finish (renew cfg w) = (Inl (NameError ''certbot''), w)"
  by (simp add: renew_def finish_def provision_cert_raises)

text \<open>
  C1. By the specification \<open>lambda_handler\<close>, when the Locator finds no certificate or
  one with 30 days or fewer remaining, runs the Executor and returns the Executor's
  record. The code takes the renewal branch in both states and returns no record from it. In a
  world where everything outside the module would let a renewal through, with an empty
  inventory and with a certificate at 30 days remaining, \<open>lambda_handler\<close> ends in
  \<open>NameError\<close> for the name \<open>certbot\<close> and leaves the world as it was: nothing is
  imported. The third state is as claimed: at 75 days remaining the response is built
  from the located record and nothing is written.
\<close>

theorem handler_returns_no_executor_record_ex:
  "temp_dir_answer (renewable w_empty_ex) = Inr ''/tmp/tmpab12cd'' \<and>
   find_latest_cert cfg_ex (renewable w_empty_ex) = Inr None \<and>
   lambda_handler cfg_ex (renewable w_empty_ex) =
     (Inl (NameError ''certbot''), renewable w_empty_ex) \<and>
   find_latest_cert cfg_ex (renewable (w_on (on_day 2024 5 16))) = Inr (Some cert_c2) \<and>
   get_days_remaining (renewable (w_on (on_day 2024 5 16))) cert_c2 = Inr 30 \<and>
   lambda_handler cfg_ex (renewable (w_on (on_day 2024 5 16))) =
     (Inl (NameError ''certbot''), renewable (w_on (on_day 2024 5 16))) \<and>
   find_latest_cert cfg_ex (renewable w_ex) = Inr (Some cert_c2) \<and>
   get_days_remaining (renewable w_ex) cert_c2 = Inr 75 \<and>
   lambda_handler cfg_ex (renewable w_ex) = (Inr (response_of cert_c2), renewable w_ex)"
proof -
  have t: "temp_dir_answer (renewable w) = Inr ''/tmp/tmpab12cd''" for w
    by (simp add: renewable_def)
  have f1: "find_latest_cert cfg_ex (renewable w_empty_ex) = Inr None"
    by code_simp
  have f2: "find_latest_cert cfg_ex (renewable (w_on (on_day 2024 5 16))) = Inr (Some cert_c2)"
    by code_simp
  have d2: "get_days_remaining (renewable (w_on (on_day 2024 5 16))) cert_c2 = Inr 30"
    by code_simp
  have f3: "find_latest_cert cfg_ex (renewable w_ex) = Inr (Some cert_c2)"
    by code_simp
  have d3: "get_days_remaining (renewable w_ex) cert_c2 = Inr 75"
    by code_simp
  have h1: "lambda_handler cfg_ex (renewable w_empty_ex) =
      (Inl (NameError ''certbot''), renewable w_empty_ex)"
    using handler_none [OF f1] finish_renew_name_error [OF t, of cfg_ex w_empty_ex] by simp
  have "(30::int) \<le> 30" by simp
  from handler_due [OF f2 d2 this]
  have h2: "lambda_handler cfg_ex (renewable (w_on (on_day 2024 5 16))) =
      (Inl (NameError ''certbot''), renewable (w_on (on_day 2024 5 16)))"
    using finish_renew_name_error [OF t, of cfg_ex "w_on (on_day 2024 5 16)"] by simp
  have "(30::int) < 75" by simp
  from handler_valid [OF f3 d3 this]
  have h3: "lambda_handler cfg_ex (renewable w_ex) = (Inr (response_of cert_c2), renewable w_ex)" .
  show ?thesis
    by (intro conjI) (rule t f1 f2 d2 f3 d3 h1 h2 h3)+
qed

text \<open>
  C9. The module binds no name \<open>certbot\<close> (it imports \<open>subprocess\<close>, which no function
  reads). So \<open>provision_cert\<close>, once its temporary
  directory exists, raises \<open>NameError\<close> at the call of the ACME client, and it never
  returns certificate data. Hence in the states without a certificate and with a
  certificate expiring soon \<open>lambda_handler\<close> ends in an error and writes nothing; the
  error is the \<open>NameError\<close> whenever the temporary directory could be made.
\<close>

theorem renewal_path_raises_name_error:
  "''certbot'' \<notin> set module_globals \<and> ''subprocess'' \<in> set module_globals \<and>
   (temp_dir_answer w = Inr temp_dir \<longrightarrow> provision_cert cfg w = Inl (NameError ''certbot'')) \<and>
   provision_cert cfg w \<noteq> Inr cert_data \<and>
   (find_latest_cert cfg w = Inr None \<or>
    find_latest_cert cfg w = Inr (Some cert) \<and> get_days_remaining w cert = Inr d \<and> d \<le> 30
      \<longrightarrow> (\<exists>e. lambda_handler cfg w = (Inl e, w)) \<and>
          (temp_dir_answer w = Inr temp_dir
             \<longrightarrow> lambda_handler cfg w = (Inl (NameError ''certbot''), w)))"
proof (intro conjI impI)
  show "''certbot'' \<notin> set module_globals" by (simp add: module_globals_def)
  show "''subprocess'' \<in> set module_globals" by (simp add: module_globals_def)
  show "provision_cert cfg w = Inl (NameError ''certbot'')" if "temp_dir_answer w = Inr temp_dir"
    using that by (simp add: provision_cert_raises)
  show "provision_cert cfg w \<noteq> Inr cert_data"
    by (simp add: provision_cert_raises split: sum.splits)
  assume "find_latest_cert cfg w = Inr None \<or>
    find_latest_cert cfg w = Inr (Some cert) \<and> get_days_remaining w cert = Inr d \<and> d \<le> 30"
  then have h: "lambda_handler cfg w = finish (renew cfg w)"
    using handler_none [of cfg w] handler_due [of cfg w cert d] by auto
  from finish_renew_fails [of cfg w] h show "\<exists>e. lambda_handler cfg w = (Inl e, w)"
    by simp
  show "lambda_handler cfg w = (Inl (NameError ''certbot''), w)"
    if "temp_dir_answer w = Inr temp_dir"
    using h finish_renew_name_error [OF that, of cfg] by simp
qed

theorem renewal_path_raises_name_error_witness:
  "temp_dir_answer w_empty_ex = Inr ''/tmp/tmpab12cd'' \<and>
   provision_cert cfg_ex w_empty_ex = Inl (NameError ''certbot'') \<and>
   find_latest_cert cfg_ex w_empty_ex = Inr None \<and>
   lambda_handler cfg_ex w_empty_ex = (Inl (NameError ''certbot''), w_empty_ex) \<and>
   temp_dir_answer (w_on (on_day 2024 5 16)) = Inr ''/tmp/tmpab12cd'' \<and>
   find_latest_cert cfg_ex (w_on (on_day 2024 5 16)) = Inr (Some cert_c2) \<and>
   get_days_remaining (w_on (on_day 2024 5 16)) cert_c2 = Inr 30 \<and>
   lambda_handler cfg_ex (w_on (on_day 2024 5 16)) =
     (Inl (NameError ''certbot''), w_on (on_day 2024 5 16))"
proof -
  have t1: "temp_dir_answer w_empty_ex = Inr ''/tmp/tmpab12cd''"
    by (simp add: w_empty_ex_def w_ex_def)
  have t2: "temp_dir_answer (w_on (on_day 2024 5 16)) = Inr ''/tmp/tmpab12cd''"
    by (simp add: w_on_def w_ex_def)
  from renewal_path_raises_name_error
         [of w_empty_ex "''/tmp/tmpab12cd''" cfg_ex _ cert_c2 30]
    renewal_path_raises_name_error
         [of "w_on (on_day 2024 5 16)" "''/tmp/tmpab12cd''" cfg_ex _ cert_c2 30]
    t1 t2 find_latest_cert_empty_ex find_latest_cert_on_ex(2) get_days_remaining_on_ex(2)
  show ?thesis by simp
qed


section \<open>Errors of the stores\<close>

















section \<open>An empty stored key\<close>

lemma examine_empty_key:
  "examine cfg (with_parameter w n (Inr [])) latest s =
   examine cfg (with_parameter w n (Inl ParameterNotFound)) latest s"
  by (simp add: examine_def get_private_key_def with_parameter_def Let_def
      split: sum.splits option.splits bool.splits ssm_error.splits prod.splits)

lemma scan_page_empty_key:
  "scan_page cfg (with_parameter w n (Inr [])) latest ss =
   scan_page cfg (with_parameter w n (Inl ParameterNotFound)) latest ss"
  by (induction ss arbitrary: latest) (simp_all add: examine_empty_key split: sum.splits)

lemma scan_pages_empty_key:
  "scan_pages cfg (with_parameter w n (Inr [])) latest ps =
   scan_pages cfg (with_parameter w n (Inl ParameterNotFound)) latest ps"
proof (induction ps arbitrary: latest)
  case Nil
  show ?case by simp
next
  case (Cons p ps)
  show ?case by (cases p) (simp_all add: scan_page_empty_key Cons.IH split: sum.splits)
qed

lemma with_parameter_acm [simp]:
  "acm_pages (with_parameter w n a) = acm_pages w"
  "acm_get (with_parameter w n a) = acm_get w"
  "acm_describe (with_parameter w n a) = acm_describe w"
  by (simp_all add: with_parameter_def)

lemma examine_skips_empty_key:
  assumes "ssm_get w (get_ssm_param_name cfg (s_CertificateArn s)) = Inr []"
    and "examine cfg w latest s = Inr l'"
  shows "l' = latest"
  using assms
  by (auto simp: examine_def get_private_key_def Let_def
      split: if_splits sum.splits option.splits bool.splits ssm_error.splits prod.splits)

text \<open>
  C10. A candidate whose parameter holds the empty string is treated as a candidate whose
  parameter is absent: \<open>find_latest_cert\<close> gives the same result in the world where the
  parameter named \<open>n\<close> holds the empty string as in the world where it is not found, and
  an iteration that finds the empty string and completes leaves the loop variable as it
  was. In the concrete inventory, emptying or removing the parameter of \<open>c2\<close> both make
  the Locator return \<open>c1\<close>.
\<close>

theorem empty_key_is_no_key:
  "find_latest_cert cfg (with_parameter w n (Inr [])) =
   find_latest_cert cfg (with_parameter w n (Inl ParameterNotFound)) \<and>
   (ssm_get u (get_ssm_param_name cfg (s_CertificateArn s)) = Inr [] \<and>
    examine cfg u latest s = Inr l' \<longrightarrow> l' = latest)"
  by (auto simp: find_latest_cert_def scan_pages_empty_key examine_skips_empty_key
      split: sum.splits option.splits)

theorem empty_key_is_no_key_witness:
  "find_latest_cert cfg_ex w_emptykey_ex = Inr (Some cert_c1) \<and>
   find_latest_cert cfg_ex w_nokey_ex = Inr (Some cert_c1) \<and>
   ssm_get w_emptykey_ex
     (get_ssm_param_name cfg_ex (s_CertificateArn (summary_ex ''example.com'' ''arn:acm/c2''))) =
     Inr [] \<and>
   examine cfg_ex w_emptykey_ex None (summary_ex ''example.com'' ''arn:acm/c2'') = Inr None"
proof -
  let ?c2 = "summary_ex ''example.com'' ''arn:acm/c2''"
  have n: "find_latest_cert cfg_ex w_nokey_ex = Inr (Some cert_c1)"
    by code_simp
  have k: "ssm_get w_emptykey_ex (get_ssm_param_name cfg_ex (s_CertificateArn ?c2)) = Inr []"
    by code_simp
  have x: "examine cfg_ex w_emptykey_ex None ?c2 = Inr None"
    by code_simp
  note r = empty_key_is_no_key
    [where cfg = cfg_ex and w = w_ex and n = "''/lets-encrypt/c2/PrivateKey''"
       and u = w_emptykey_ex and s = ?c2 and latest = None and l' = None]
  from r have "find_latest_cert cfg_ex w_emptykey_ex = find_latest_cert cfg_ex w_nokey_ex"
    by (simp add: w_emptykey_ex_def w_nokey_ex_def)
  with n k x show ?thesis by simp
qed


section \<open>Expiry arithmetic\<close>

text \<open>
  The ordinal of a date goes up by one from a day to the next: within a month, from the
  last day of a month to the first of the next, and from 31 December to 1 January, in
  leap years and in common years.
\<close>

lemma month_cases:
  assumes "1 \<le> m" "m \<le> (12::int)"
  obtains "m = 1" | "m = 2" | "m = 3" | "m = 4" | "m = 5" | "m = 6" | "m = 7" | "m = 8"
    | "m = 9" | "m = 10" | "m = 11" | "m = 12"
proof -
  from assms have "m = 1 \<or> m = 2 \<or> m = 3 \<or> m = 4 \<or> m = 5 \<or> m = 6 \<or> m = 7 \<or> m = 8
      \<or> m = 9 \<or> m = 10 \<or> m = 11 \<or> m = 12"
    by arith
  with that show thesis by blast
qed

lemma days_before_next_month:
  assumes "1 \<le> m" "m < 12"
  shows "days_before_month y (m + 1) = days_before_month y m + days_in_month y m"
proof -
  from assms have "1 \<le> m" "m \<le> 12" by simp_all
  then show ?thesis
    using assms(2)
    by (cases m rule: month_cases)
      (simp_all add: days_before_month_def days_in_month_def DAYS_BEFORE_MONTH_def
        DAYS_IN_MONTH_def)
qed

lemma days_in_month_pos:
  assumes "1 \<le> m" "m \<le> 12"
  shows "28 \<le> days_in_month y m"
  using assms
  by (cases m rule: month_cases) (simp_all add: days_in_month_def DAYS_IN_MONTH_def)

lemma div_below:
  assumes "0 < (k::int)" "0 \<le> r" "r < k"
  shows "(r + q * k) div k = q"
proof -
  from assms(1) have "k \<noteq> 0" by simp
  then have "(r + q * k) div k = q + r div k" by (rule div_mult_self1)
  also have "r div k = 0" using assms(2,3) by (rule div_pos_pos_trivial)
  finally show ?thesis by simp
qed

lemma div_step:
  assumes "0 < (k::int)"
  shows "y div k = (y - 1) div k + (if y mod k = 0 then 1 else 0)"
proof (cases "y mod k = 0")
  case True
  then have y: "(y div k) * k = y" by (simp add: mod_eq_0_iff_dvd)
  have "(k - 1) + (y div k - 1) * k = (y div k) * k - 1"
    by (simp add: algebra_simps)
  with y have e: "y - 1 = (k - 1) + (y div k - 1) * k" by (simp only:)
  have "((k - 1) + (y div k - 1) * k) div k = y div k - 1"
    using assms by (intro div_below) simp_all
  with e have "(y - 1) div k = y div k - 1" by (simp only:)
  with True show ?thesis by simp
next
  case False
  have m: "0 \<le> y mod k" "y mod k < k"
    using assms by simp_all
  have e: "y - 1 = (y mod k - 1) + (y div k) * k" by simp
  have "((y mod k - 1) + (y div k) * k) div k = y div k"
    using assms m False by (intro div_below) simp_all
  with e have "(y - 1) div k = y div k" by (simp only:)
  with False show ?thesis by simp
qed

lemma mod_0_trans:
  assumes "(a::int) dvd b" "y mod b = 0"
  shows "y mod a = 0"
proof -
  from assms(2) have "b dvd y" by (simp add: mod_eq_0_iff_dvd)
  with assms(1) have "a dvd y" by (rule dvd_trans)
  then show ?thesis by (simp add: mod_eq_0_iff_dvd)
qed

lemma days_before_year_step:
  "days_before_year (y + 1) = days_before_year y + 365 + (if is_leap y then 1 else 0)"
proof -
  define a where "a = (y - 1) div 4"
  define b where "b = (y - 1) div 100"
  define c where "c = (y - 1) div 400"
  have d4: "y div 4 = a + (if y mod 4 = 0 then 1 else 0)"
    unfolding a_def by (rule div_step) simp
  have d100: "y div 100 = b + (if y mod 100 = 0 then 1 else 0)"
    unfolding b_def by (rule div_step) simp
  have d400: "y div 400 = c + (if y mod 400 = 0 then 1 else 0)"
    unfolding c_def by (rule div_step) simp
  have i1: "y mod 4 = 0" if "y mod 100 = 0"
    using _ that by (rule mod_0_trans) simp
  have i2: "y mod 100 = 0" if "y mod 400 = 0"
    using _ that by (rule mod_0_trans) simp
  have l: "days_before_year (y + 1) = y * 365 + y div 4 - y div 100 + y div 400"
    by (simp add: days_before_year_def Let_def)
  have r: "days_before_year y = (y - 1) * 365 + a - b + c"
    by (simp add: days_before_year_def Let_def a_def b_def c_def)
  consider (n4) "y mod 4 \<noteq> 0" | (n100) "y mod 4 = 0" "y mod 100 \<noteq> 0"
    | (n400) "y mod 4 = 0" "y mod 100 = 0" "y mod 400 \<noteq> 0" | (y400) "y mod 400 = 0"
    by fast
  then show ?thesis
  proof cases
    case n4
    with i1 i2 have "y mod 100 \<noteq> 0" "y mod 400 \<noteq> 0" by auto
    with n4 show ?thesis
      unfolding l r d4 d100 d400 is_leap_def by (simp add: algebra_simps)
  next
    case n100
    with i2 have "y mod 400 \<noteq> 0" by auto
    with n100 show ?thesis
      unfolding l r d4 d100 d400 is_leap_def by (simp add: algebra_simps)
  next
    case n400
    then show ?thesis
      unfolding l r d4 d100 d400 is_leap_def by (simp add: algebra_simps)
  next
    case y400
    with i1 i2 have "y mod 100 = 0" "y mod 4 = 0" by auto
    with y400 show ?thesis
      unfolding l r d4 d100 d400 is_leap_def by (simp add: algebra_simps)
  qed
qed

lemma days_before_next_year:
  "days_before_year (y + 1) + days_before_month (y + 1) 1 =
   days_before_year y + days_before_month y 12 + days_in_month y 12"
  by (simp add: days_before_year_step days_before_month_def days_in_month_def
      DAYS_BEFORE_MONTH_def DAYS_IN_MONTH_def)

lemma toordinal_next_day:
  assumes "month_day_ok dt"
  shows "toordinal (next_day dt) = toordinal dt + 1"
proof -
  consider (a) "d_day dt < days_in_month (d_year dt) (d_month dt)"
    | (b) "d_day dt = days_in_month (d_year dt) (d_month dt)" "d_month dt < 12"
    | (c) "d_day dt = days_in_month (d_year dt) (d_month dt)" "d_month dt = 12"
    using assms unfolding month_day_ok_def by linarith
  then show ?thesis
  proof cases
    case a
    then show ?thesis by (simp add: toordinal_def next_day_def ymd2ord_def)
  next
    case b
    with assms days_before_next_month [of "d_month dt" "d_year dt"] show ?thesis
      by (simp add: toordinal_def next_day_def ymd2ord_def month_day_ok_def)
  next
    case c
    with days_before_next_year [of "d_year dt"] show ?thesis
      by (simp add: toordinal_def next_day_def ymd2ord_def)
  qed
qed

lemma month_day_ok_next_day:
  assumes "month_day_ok dt"
  shows "month_day_ok (next_day dt)"
proof -
  from assms have m: "1 \<le> d_month dt" "d_month dt \<le> 12" by (simp_all add: month_day_ok_def)
  have "28 \<le> days_in_month y (d_month dt + 1)" if "d_month dt < 12" for y
    using m that by (intro days_in_month_pos) simp_all
  moreover have "28 \<le> days_in_month y 1" for y by (intro days_in_month_pos) simp_all
  ultimately show ?thesis
    using assms
    by (auto simp: month_day_ok_def next_day_def intro: order_trans [where y = 28])
qed

lemma month_day_ok_plus_days: "month_day_ok dt \<Longrightarrow> month_day_ok (plus_days dt n)"
  by (induction n) (simp_all add: month_day_ok_next_day)

lemma toordinal_plus_days:
  "month_day_ok dt \<Longrightarrow> toordinal (plus_days dt n) = toordinal dt + int n"
proof (induction n)
  case 0
  show ?case by simp
next
  case (Suc n)
  from Suc.prems have "month_day_ok (plus_days dt n)" by (rule month_day_ok_plus_days)
  from toordinal_next_day [OF this] Suc show ?case by simp
qed

lemma valid_date_month_day_ok: "valid_date dt \<Longrightarrow> month_day_ok dt"
  by (simp add: valid_date_def month_day_ok_def)

lemma get_days_remaining_valid:
  assumes "valid_date (date_part (NotAfter cert))"
  shows "get_days_remaining w cert =
           Inr (toordinal (date_part (NotAfter cert)) - toordinal (today w))"
  using assms
  by (simp add: get_days_remaining_def date_new_def valid_date_def date_part_def
      date_sub_days_def Let_def)

lemma get_days_remaining_ahead:
  assumes "valid_date (today w)" "valid_date (date_part (NotAfter cert))"
    "date_part (NotAfter cert) = plus_days (today w) n"
  shows "get_days_remaining w cert = Inr (int n)"
  using get_days_remaining_valid [OF assms(2), of w]
    toordinal_plus_days [OF valid_date_month_day_ok [OF assms(1)], of n] assms(3)
  by simp

lemma get_days_remaining_behind:
  assumes "valid_date (date_part (NotAfter cert))"
    "today w = plus_days (date_part (NotAfter cert)) n"
  shows "get_days_remaining w cert = Inr (- int n)"
  using get_days_remaining_valid [OF assms(1), of w]
    toordinal_plus_days [OF valid_date_month_day_ok [OF assms(1)], of n] assms(2)
  by simp

lemma get_days_remaining_clock:
  "get_days_remaining w
     (cert\<lparr>NotAfter := (NotAfter cert)\<lparr>hour := h, minute := mi, second := s,
                                         microsecond := us\<rparr>\<rparr>) =
   get_days_remaining w cert"
  by (simp add: get_days_remaining_def)

text \<open>
  C6. For valid dates, \<open>get_days_remaining\<close> is the difference of the calendar dates of
  \<open>NotAfter\<close> and of today, in whole days, and the clock fields of \<open>NotAfter\<close> do not
  matter. When the date of \<open>NotAfter\<close> is \<open>n\<close> days after today the result is \<open>n\<close>; when
  today is \<open>n\<close> days after it the result is \<open>- n\<close>. So at 31 days \<open>lambda_handler\<close> returns
  the located record and does not renew, at 30 days it renews, and one day after expiry
  the result is \<open>- 1\<close> and it renews.
\<close>

theorem days_remaining_is_calendar_difference:
  assumes "valid_date (today w)" and "valid_date (date_part (NotAfter cert))"
  shows
    "get_days_remaining w cert =
       Inr (toordinal (date_part (NotAfter cert)) - toordinal (today w)) \<and>
     get_days_remaining w
       (cert\<lparr>NotAfter := (NotAfter cert)\<lparr>hour := h, minute := mi, second := s,
                                           microsecond := us\<rparr>\<rparr>) =
       get_days_remaining w cert \<and>
     (date_part (NotAfter cert) = plus_days (today w) n
        \<longrightarrow> get_days_remaining w cert = Inr (int n)) \<and>
     (today w = plus_days (date_part (NotAfter cert)) n
        \<longrightarrow> get_days_remaining w cert = Inr (- int n)) \<and>
     (find_latest_cert cfg w = Inr (Some cert) \<and>
      date_part (NotAfter cert) = plus_days (today w) 31
        \<longrightarrow> get_days_remaining w cert = Inr 31 \<and>
            lambda_handler cfg w = (Inr (response_of cert), w)) \<and>
     (find_latest_cert cfg w = Inr (Some cert) \<and>
      date_part (NotAfter cert) = plus_days (today w) 30
        \<longrightarrow> get_days_remaining w cert = Inr 30 \<and>
            lambda_handler cfg w = finish (renew cfg w)) \<and>
     (find_latest_cert cfg w = Inr (Some cert) \<and>
      today w = plus_days (date_part (NotAfter cert)) 1
        \<longrightarrow> get_days_remaining w cert = Inr (- 1) \<and>
            lambda_handler cfg w = finish (renew cfg w))"
proof (intro conjI impI; (elim conjE)?)
  show "get_days_remaining w cert =
       Inr (toordinal (date_part (NotAfter cert)) - toordinal (today w))"
    using assms(2) by (rule get_days_remaining_valid)
  show "get_days_remaining w
       (cert\<lparr>NotAfter := (NotAfter cert)\<lparr>hour := h, minute := mi, second := s,
                                           microsecond := us\<rparr>\<rparr>) =
       get_days_remaining w cert"
    by (rule get_days_remaining_clock)
  show "get_days_remaining w cert = Inr (int n)"
    if "date_part (NotAfter cert) = plus_days (today w) n"
    using assms that by (rule get_days_remaining_ahead)
  show "get_days_remaining w cert = Inr (- int n)"
    if "today w = plus_days (date_part (NotAfter cert)) n"
    using assms(2) that by (rule get_days_remaining_behind)
next
  assume f: "find_latest_cert cfg w = Inr (Some cert)"
    and d: "date_part (NotAfter cert) = plus_days (today w) 31"
  from get_days_remaining_ahead [OF assms d]
  show g: "get_days_remaining w cert = Inr 31" by simp
  from handler_valid [OF f g] show "lambda_handler cfg w = (Inr (response_of cert), w)"
    by simp
next
  assume f: "find_latest_cert cfg w = Inr (Some cert)"
    and d: "date_part (NotAfter cert) = plus_days (today w) 30"
  from get_days_remaining_ahead [OF assms d]
  show g: "get_days_remaining w cert = Inr 30" by simp
  from handler_due [OF f g] show "lambda_handler cfg w = finish (renew cfg w)"
    by simp
next
  assume f: "find_latest_cert cfg w = Inr (Some cert)"
    and d: "today w = plus_days (date_part (NotAfter cert)) 1"
  from get_days_remaining_behind [OF assms(2) d]
  show g: "get_days_remaining w cert = Inr (- 1)" by simp
  from handler_due [OF f g] show "lambda_handler cfg w = finish (renew cfg w)"
    by simp
qed


theorem days_remaining_is_calendar_difference_witness:
  "valid_date (date_part (NotAfter cert_c2)) \<and>
   valid_date (today (w_on (on_day 2024 5 15))) \<and>
   date_part (NotAfter cert_c2) = plus_days (today (w_on (on_day 2024 5 15))) 31 \<and>
   find_latest_cert cfg_ex (w_on (on_day 2024 5 15)) = Inr (Some cert_c2) \<and>
   get_days_remaining (w_on (on_day 2024 5 15)) cert_c2 = Inr 31 \<and>
   lambda_handler cfg_ex (w_on (on_day 2024 5 15)) =
     (Inr (response_of cert_c2), w_on (on_day 2024 5 15)) \<and>
   valid_date (today (w_on (on_day 2024 5 16))) \<and>
   date_part (NotAfter cert_c2) = plus_days (today (w_on (on_day 2024 5 16))) 30 \<and>
   find_latest_cert cfg_ex (w_on (on_day 2024 5 16)) = Inr (Some cert_c2) \<and>
   get_days_remaining (w_on (on_day 2024 5 16)) cert_c2 = Inr 30 \<and>
   lambda_handler cfg_ex (w_on (on_day 2024 5 16)) =
     finish (renew cfg_ex (w_on (on_day 2024 5 16))) \<and>
   valid_date (today (w_on (on_day 2024 6 16))) \<and>
   today (w_on (on_day 2024 6 16)) = plus_days (date_part (NotAfter cert_c2)) 1 \<and>
   find_latest_cert cfg_ex (w_on (on_day 2024 6 16)) = Inr (Some cert_c2) \<and>
   get_days_remaining (w_on (on_day 2024 6 16)) cert_c2 = Inr (- 1) \<and>
   lambda_handler cfg_ex (w_on (on_day 2024 6 16)) =
     finish (renew cfg_ex (w_on (on_day 2024 6 16)))"
proof -
  have v: "valid_date (date_part (NotAfter cert_c2))"
    by code_simp
  have v1: "valid_date (today (w_on (on_day 2024 5 15)))"
    and v2: "valid_date (today (w_on (on_day 2024 5 16)))"
    and v3: "valid_date (today (w_on (on_day 2024 6 16)))"
    by code_simp+
  have p1: "date_part (NotAfter cert_c2) = plus_days (today (w_on (on_day 2024 5 15))) 31"
    and p2: "date_part (NotAfter cert_c2) = plus_days (today (w_on (on_day 2024 5 16))) 30"
    and p3: "today (w_on (on_day 2024 6 16)) = plus_days (date_part (NotAfter cert_c2)) 1"
    by code_simp+
  note r1 = days_remaining_is_calendar_difference [OF v1 v, where cfg = cfg_ex]
  note r2 = days_remaining_is_calendar_difference [OF v2 v, where cfg = cfg_ex]
  note r3 = days_remaining_is_calendar_difference [OF v3 v, where cfg = cfg_ex]
  note a = r1 [THEN conjunct2, THEN conjunct2, THEN conjunct2, THEN conjunct2, THEN conjunct1,
    THEN mp, OF conjI [OF find_latest_cert_on_ex(1) p1]]
  note b = r2 [THEN conjunct2, THEN conjunct2, THEN conjunct2, THEN conjunct2, THEN conjunct2,
    THEN conjunct1, THEN mp, OF conjI [OF find_latest_cert_on_ex(2) p2]]
  note c = r3 [THEN conjunct2, THEN conjunct2, THEN conjunct2, THEN conjunct2, THEN conjunct2,
    THEN conjunct2, THEN mp, OF conjI [OF find_latest_cert_on_ex(3) p3]]
  show ?thesis
    by (intro conjI)
      (rule v v1 v2 v3 p1 p2 p3 find_latest_cert_on_ex a [THEN conjunct1] a [THEN conjunct2]
        b [THEN conjunct1] b [THEN conjunct2] c [THEN conjunct1] c [THEN conjunct2])+
qed


end
